theory Spec2Isabelle
  imports Complex_Main "HOL-Library.Word"
begin

section \<open>Python values\<close>

text \<open>
  Messages are JSON objects decoded by \<^verbatim>\<open>json.loads\<close>. JSON numbers are restricted to
  integers (Python \<^verbatim>\<open>int\<close>); a Python \<^verbatim>\<open>dict\<close> with string keys is an association list
  with distinct keys, read with \<open>map_of\<close>. \<^verbatim>\<open>bytes\<close> are lists of 8-bit words.
\<close>

datatype json =
    JNull
  | JBool bool
  | JInt int
  | JStr string
  | JArr "json list"
  | JObj "(string \<times> json) list"

type_synonym dict = "(string \<times> json) list"
type_synonym bytes = "8 word list"

datatype exn =
    TypeError
  | AttributeError
  | ActuatorError
  | TransportError
  | InvalidStateError
  | CancelledError
  | UnicodeEncodeError
  | DecodeError
  | BotError

text \<open>\<^verbatim>\<open>d.get(k)\<close> and \<^verbatim>\<open>d.get(k, default)\<close>.\<close>

definition dict_get :: "dict \<Rightarrow> string \<Rightarrow> json" where
  "dict_get d k = (case map_of d k of None \<Rightarrow> JNull | Some v \<Rightarrow> v)"

definition dict_get_or :: "dict \<Rightarrow> string \<Rightarrow> json \<Rightarrow> json" where
  "dict_get_or d k dflt = (case map_of d k of None \<Rightarrow> dflt | Some v \<Rightarrow> v)"

text \<open>\<^verbatim>\<open>k in d\<close>.\<close>

definition has_key :: "('k \<times> 'v) list \<Rightarrow> 'k \<Rightarrow> bool" where
  "has_key d k = (map_of d k \<noteq> None)"

text \<open>Python truthiness of a decoded JSON value.\<close>

fun truthy :: "json \<Rightarrow> bool" where
  "truthy JNull = False"
| "truthy (JBool b) = b"
| "truthy (JInt n) = (n \<noteq> 0)"
| "truthy (JStr s) = (s \<noteq> [])"
| "truthy (JArr xs) = (xs \<noteq> [])"
| "truthy (JObj kvs) = (kvs \<noteq> [])"

text \<open>\<^verbatim>\<open>len(v)\<close>: \<open>None\<close> stands for the \<^verbatim>\<open>TypeError\<close> of a value without a length.\<close>

fun py_len :: "json \<Rightarrow> nat option" where
  "py_len (JStr s) = Some (length s)"
| "py_len (JArr xs) = Some (length xs)"
| "py_len (JObj kvs) = Some (length kvs)"
| "py_len _ = None"

text \<open>\<^verbatim>\<open>int(-v)\<close>: unary minus is defined on \<^verbatim>\<open>int\<close> and \<^verbatim>\<open>bool\<close> only.\<close>

fun py_neg :: "json \<Rightarrow> int option" where
  "py_neg (JInt n) = Some (- n)"
| "py_neg (JBool b) = Some (if b then - 1 else 0)"
| "py_neg _ = None"

text \<open>
  \<^verbatim>\<open>base64.b64encode(data).decode('ascii')\<close> of the standard library (RFC 4648, with
  padding).
\<close>

definition b64_alphabet :: string where
  "b64_alphabet = ''ABCDEFGHIJKLMNOPQRSTUVWXYZabcdefghijklmnopqrstuvwxyz0123456789+/''"

definition b64_char :: "nat \<Rightarrow> char" where
  "b64_char n = b64_alphabet ! (n mod 64)"

fun b64encode :: "bytes \<Rightarrow> string" where
  "b64encode (a # b # c # rest) =
     (let n = unat a * 65536 + unat b * 256 + unat c
      in [b64_char (n div 262144), b64_char (n div 4096), b64_char (n div 64), b64_char n]
         @ b64encode rest)"
| "b64encode [a, b] =
     (let n = unat a * 1024 + unat b * 4
      in [b64_char (n div 4096), b64_char (n div 64), b64_char n, CHR ''=''])"
| "b64encode [a] =
     (let n = unat a * 16
      in [b64_char (n div 64), b64_char n, CHR ''='', CHR ''=''])"
| "b64encode [] = []"

section \<open>The agent: \<^verbatim>\<open>client.py\<close>\<close>

subsection \<open>Configuration\<close>

definition RECONNECT_DELAY :: real where
  "RECONNECT_DELAY = 5"

definition STREAM_FPS :: real where
  "STREAM_FPS = 30"

subsection \<open>Effects\<close>

text \<open>
  Calls into \<^verbatim>\<open>pyautogui\<close>, \<^verbatim>\<open>webbrowser\<close> and \<^verbatim>\<open>os.system\<close>, with their arguments.
\<close>

datatype action =
    OpenUrl json
  | Write json
  | MoveTo json json
  | MouseDown string
  | MouseUp string
  | Click string
  | DoubleClick string
  | Scroll int
  | KeyDown json
  | KeyUp json
  | OsSystem string

text \<open>
  What the agent does, in order: \<open>Print\<close> is a line on the console (the fixed part of
  the format string), \<open>WsSend\<close> a call of \<^verbatim>\<open>self.ws.send\<close> with the JSON value,
  \<open>Act\<close> a call of an actuator, \<open>Sleep\<close> a call of \<^verbatim>\<open>asyncio.sleep\<close> with
  its argument in seconds, \<open>Capture\<close> a call of \<^verbatim>\<open>_capture_screen\<close>,
  \<open>CreateTask\<close> and \<open>CancelTask\<close> the creation and the cancellation (awaited) of the
  streaming task, \<open>Connect\<close> a call of \<^verbatim>\<open>websockets.connect\<close>, \<open>WsClose\<close> a call
  of \<^verbatim>\<open>self.ws.close\<close>.
\<close>

datatype event =
    Print string
  | WsSend json
  | Act action
  | Sleep real
  | Capture
  | CreateTask
  | CancelTask
  | Connect
  | WsClose

text \<open>
  The environment of one command: which actuator calls raise, which sends raise, what
  the screen grabber returns (\<open>None\<close>: the capture pipeline raised), \<^verbatim>\<open>os.name\<close>, and
  which values of a message \<^verbatim>\<open>print\<close> cannot write to the console: text that
  \<^verbatim>\<open>sys.stdout\<close> cannot encode, such as the lone surrogate that \<^verbatim>\<open>json.loads\<close>
  accepts, makes \<^verbatim>\<open>print\<close> raise \<^verbatim>\<open>UnicodeEncodeError\<close>. The lines with a fixed text,
  and those of the \<^verbatim>\<open>except\<close> clauses, are printed without error.
\<close>

record env =
  raises :: "action \<Rightarrow> bool"
  send_raises :: "json \<Rightarrow> bool"
  grab :: "bytes option"
  os_name :: string
  console_rejects :: "json \<Rightarrow> bool"

text \<open>
  The fields of \<^verbatim>\<open>BlackLineClient\<close> that the handlers read and write. \<open>ws\<close> and
  \<open>stream_task\<close> are \<^verbatim>\<open>Optional\<close> in the source and only ever tested for
  truthiness: \<open>True\<close> stands for a present connection or task.
\<close>

record BlackLineClient =
  ws :: bool
  is_streaming :: bool
  stream_task :: bool

text \<open>
  A coroutine of the agent: from the object's state to the events it emitted, the
  exception it raised (if any) and the state it left. State changes made before an
  exception stay.
\<close>

type_synonym comp = "BlackLineClient \<Rightarrow> (event list \<times> exn option) \<times> BlackLineClient"

definition trace :: "(event list \<times> exn option) \<times> BlackLineClient \<Rightarrow> event list" where
  "trace r = fst (fst r)"

definition raised :: "(event list \<times> exn option) \<times> BlackLineClient \<Rightarrow> exn option" where
  "raised r = snd (fst r)"

definition final :: "(event list \<times> exn option) \<times> BlackLineClient \<Rightarrow> BlackLineClient" where
  "final r = snd r"

definition py_skip :: comp where
  "py_skip c = (([], None), c)"

definition py_emit :: "event \<Rightarrow> comp" where
  "py_emit e c = (([e], None), c)"

definition py_raise :: "exn \<Rightarrow> comp" where
  "py_raise x c = (([], Some x), c)"

definition py_modify :: "(BlackLineClient \<Rightarrow> BlackLineClient) \<Rightarrow> comp" where
  "py_modify f c = (([], None), f c)"

definition py_seq :: "comp \<Rightarrow> comp \<Rightarrow> comp" where
  "py_seq m n c =
     (case m c of
        ((es, Some x), c') \<Rightarrow> ((es, Some x), c')
      | ((es, None), c') \<Rightarrow> (case n c' of ((es', r), c'') \<Rightarrow> ((es @ es', r), c'')))"

fun py_block :: "comp list \<Rightarrow> comp" where
  "py_block [] = py_skip"
| "py_block (m # ms) = py_seq m (py_block ms)"

text \<open>\<^verbatim>\<open>try: m except Exception as e: h\<close>.\<close>

definition py_try :: "comp \<Rightarrow> comp \<Rightarrow> comp" where
  "py_try m h c =
     (case m c of
        ((es, Some x), c') \<Rightarrow> (case h c' of ((es', r), c'') \<Rightarrow> ((es @ es', r), c''))
      | ((es, None), c') \<Rightarrow> ((es, None), c'))"

text \<open>A branch on the object's state.\<close>

definition py_if :: "(BlackLineClient \<Rightarrow> bool) \<Rightarrow> comp \<Rightarrow> comp \<Rightarrow> comp" where
  "py_if p m n c = (if p c then m c else n c)"

text \<open>An actuator call: made, then it returns or raises.\<close>

definition act :: "env \<Rightarrow> action \<Rightarrow> comp" where
  "act e a = py_seq (py_emit (Act a)) (if raises e a then py_raise ActuatorError else py_skip)"

text \<open>A \<^verbatim>\<open>print\<close> of a line that shows a value of the message.\<close>

definition py_print :: "env \<Rightarrow> string \<Rightarrow> json \<Rightarrow> comp" where
  "py_print e line shown =
     (if console_rejects e shown then py_raise UnicodeEncodeError else py_emit (Print line))"

subsection \<open>Sending\<close>

definition send :: "env \<Rightarrow> json \<Rightarrow> comp" where
  "send e data =
     py_if ws
       (py_seq (py_emit (WsSend data))
          (if send_raises e data then py_emit (Print ''[!] Send error'') else py_skip))
       py_skip"

definition ack :: "string \<Rightarrow> json" where
  "ack command = JObj [(''type'', JStr ''ack''), (''command'', JStr command)]"

definition send_ack :: "env \<Rightarrow> string \<Rightarrow> comp" where
  "send_ack e command = send e (ack command)"

subsection \<open>Screen capture\<close>

text \<open>\<^verbatim>\<open>_capture_screen\<close>: the JPEG bytes, or \<^verbatim>\<open>b""\<close> when anything raised.\<close>

definition capture_screen :: "env \<Rightarrow> bytes" where
  "capture_screen e = (case grab e of None \<Rightarrow> [] | Some jpeg \<Rightarrow> jpeg)"

definition capture_events :: "env \<Rightarrow> event list" where
  "capture_events e =
     (case grab e of None \<Rightarrow> [Capture, Print ''[!] Screenshot error''] | Some jpeg \<Rightarrow> [Capture])"

definition capture :: "env \<Rightarrow> comp" where
  "capture e c = ((capture_events e, None), c)"

subsection \<open>Command handlers\<close>

definition screenshot_msg :: "bytes \<Rightarrow> json" where
  "screenshot_msg image_data = JObj [(''type'', JStr ''screenshot''), (''image'', JStr (b64encode image_data))]"

definition handle_screenshot_request :: "env \<Rightarrow> comp" where
  "handle_screenshot_request e =
     py_try
       (py_block
          [capture e,
           if capture_screen e \<noteq> [] then send e (screenshot_msg (capture_screen e)) else py_skip,
           send_ack e ''screenshot_request''])
       (py_emit (Print ''[!] Screenshot request error''))"

definition handle_shutdown :: "env \<Rightarrow> comp" where
  "handle_shutdown e =
     py_try
       (py_block
          [py_emit (Print ''[*] Shutdown command received''),
           send_ack e ''shutdown'',
           py_emit (Sleep (5 / 10)),
           if os_name e = ''nt'' then act e (OsSystem ''shutdown /s /t 1'')
           else act e (OsSystem ''shutdown now'')])
       (py_emit (Print ''[!] Shutdown error''))"

definition handle_browser :: "env \<Rightarrow> json \<Rightarrow> comp" where
  "handle_browser e url =
     py_try
       (py_block
          [py_print e ''[*] Opening URL'' url,
           act e (OpenUrl url),
           send_ack e ''browser''])
       (py_emit (Print ''[!] Browser error''))"

text \<open>\<^verbatim>\<open>text[:50]\<close>: \<open>None\<close> stands for the exception of a value that cannot be sliced.\<close>

fun py_slice50 :: "json \<Rightarrow> json option" where
  "py_slice50 (JStr s) = Some (JStr (take 50 s))"
| "py_slice50 (JArr xs) = Some (JArr (take 50 xs))"
| "py_slice50 other = None"

text \<open>
  The \<^verbatim>\<open>print\<close> of \<^verbatim>\<open>handle_type\<close> evaluates \<^verbatim>\<open>len(text)\<close>, then shows
  \<^verbatim>\<open>text[:50]\<close> when the length exceeds 50 and \<^verbatim>\<open>text\<close> otherwise.
\<close>

definition print_typing :: "env \<Rightarrow> json \<Rightarrow> comp" where
  "print_typing e text =
     (case py_len text of
        None \<Rightarrow> py_raise TypeError
      | Some n \<Rightarrow>
          (if 50 < n then
             (case py_slice50 text of
                None \<Rightarrow> py_raise TypeError
              | Some shown \<Rightarrow> py_print e ''[*] Typing text'' shown)
           else py_print e ''[*] Typing text'' text))"

definition handle_type :: "env \<Rightarrow> json \<Rightarrow> comp" where
  "handle_type e text =
     py_try
       (py_block
          [print_typing e text,
           act e (Write text),
           send_ack e ''type''])
       (py_emit (Print ''[!] Type error''))"

text \<open>
  \<^verbatim>\<open>button_map.get(button, 'left')\<close>: \<open>None\<close> stands for the \<^verbatim>\<open>TypeError\<close> of an
  unhashable key. In Python \<^verbatim>\<open>True == 1\<close> and \<^verbatim>\<open>False == 0\<close>, with equal hashes.
\<close>

definition button_map :: "(int \<times> string) list" where
  "button_map = [(0, ''left''), (1, ''middle''), (2, ''right'')]"

fun button_map_get :: "json \<Rightarrow> string \<Rightarrow> string option" where
  "button_map_get (JInt n) dflt = Some (case map_of button_map n of None \<Rightarrow> dflt | Some b \<Rightarrow> b)"
| "button_map_get (JBool b) dflt =
     Some (case map_of button_map (if b then 1 else 0) of None \<Rightarrow> dflt | Some b \<Rightarrow> b)"
| "button_map_get (JArr xs) dflt = None"
| "button_map_get (JObj kvs) dflt = None"
| "button_map_get _ dflt = Some dflt"

text \<open>The button that \<^verbatim>\<open>handle_mouse_event\<close> computes from its keyword arguments.\<close>

definition pyautogui_button :: "dict \<Rightarrow> string option" where
  "pyautogui_button kwargs = button_map_get (dict_get_or kwargs ''button'' (JInt 1)) ''left''"

definition move_to_xy :: "env \<Rightarrow> dict \<Rightarrow> comp" where
  "move_to_xy e kwargs =
     (if dict_get kwargs ''x'' \<noteq> JNull \<and> dict_get kwargs ''y'' \<noteq> JNull
      then act e (MoveTo (dict_get kwargs ''x'') (dict_get kwargs ''y''))
      else py_skip)"

definition handle_mouse_event :: "env \<Rightarrow> json \<Rightarrow> dict \<Rightarrow> comp" where
  "handle_mouse_event e event kwargs =
     py_try
       (case pyautogui_button kwargs of
          None \<Rightarrow> py_raise TypeError
        | Some button \<Rightarrow>
            py_block
              [if event = JStr ''mousemove'' then move_to_xy e kwargs
               else if event = JStr ''mousedown'' then
                 py_block [move_to_xy e kwargs, act e (MouseDown button)]
               else if event = JStr ''mouseup'' then act e (MouseUp button)
               else if event = JStr ''click'' then
                 py_block [move_to_xy e kwargs, act e (Click button)]
               else if event = JStr ''doubleclick'' then
                 py_block [move_to_xy e kwargs, act e (DoubleClick button)]
               else if event = JStr ''wheel'' then
                 (case py_neg (dict_get_or kwargs ''deltaY'' (JInt 0)) of
                    None \<Rightarrow> py_raise TypeError
                  | Some n \<Rightarrow> act e (Scroll n))
               else py_skip,
               send_ack e ''mouse_event''])
       (py_emit (Print ''[!] Mouse event error''))"

definition key_map_down :: "(string \<times> string) list" where
  "key_map_down =
     [(''Enter'', ''enter''), (''Escape'', ''esc''), (''Backspace'', ''backspace''),
      (''Delete'', ''delete''), (''ArrowUp'', ''up''), (''ArrowDown'', ''down''),
      (''ArrowLeft'', ''left''), (''ArrowRight'', ''right''), (''Tab'', ''tab''),
      (''Space'', ''space''), (''Control'', ''ctrl''), (''Alt'', ''alt''),
      (''Shift'', ''shift''), (''Meta'', ''command''),
      (''F1'', ''f1''), (''F2'', ''f2''), (''F3'', ''f3''), (''F4'', ''f4''),
      (''F5'', ''f5''), (''F6'', ''f6''), (''F7'', ''f7''), (''F8'', ''f8''),
      (''F9'', ''f9''), (''F10'', ''f10''), (''F11'', ''f11''), (''F12'', ''f12'')]"

definition key_map_up :: "(string \<times> string) list" where
  "key_map_up =
     [(''Enter'', ''enter''), (''Escape'', ''esc''), (''Backspace'', ''backspace''),
      (''Delete'', ''delete''), (''ArrowUp'', ''up''), (''ArrowDown'', ''down''),
      (''ArrowLeft'', ''left''), (''ArrowRight'', ''right''), (''Tab'', ''tab''),
      (''Space'', ''space''), (''Control'', ''ctrl''), (''Alt'', ''alt''),
      (''Shift'', ''shift''), (''Meta'', ''command'')]"

text \<open>\<^verbatim>\<open>key_map.get(key, key)\<close>: \<open>None\<close> stands for the \<^verbatim>\<open>TypeError\<close> of an unhashable key.\<close>

fun key_map_get :: "(string \<times> string) list \<Rightarrow> json \<Rightarrow> json option" where
  "key_map_get km (JStr s) = Some (case map_of km s of None \<Rightarrow> JStr s | Some k \<Rightarrow> JStr k)"
| "key_map_get km (JArr xs) = None"
| "key_map_get km (JObj kvs) = None"
| "key_map_get km key = Some key"

definition handle_keyboard_event :: "env \<Rightarrow> json \<Rightarrow> json \<Rightarrow> json \<Rightarrow> comp" where
  "handle_keyboard_event e event key code =
     py_try
       (py_block
          [if event = JStr ''keydown'' then
             (case key_map_get key_map_down key of
                None \<Rightarrow> py_raise TypeError
              | Some pyautogui_key \<Rightarrow>
                  (if truthy pyautogui_key then
                     (case py_len pyautogui_key of
                        None \<Rightarrow> py_raise TypeError
                      | Some n \<Rightarrow>
                          (if n = 1 then act e (KeyDown pyautogui_key)
                           else act e (KeyDown pyautogui_key)))
                   else act e (KeyDown pyautogui_key)))
           else if event = JStr ''keyup'' then
             (case key_map_get key_map_up key of
                None \<Rightarrow> py_raise TypeError
              | Some pyautogui_key \<Rightarrow> act e (KeyUp pyautogui_key))
           else py_skip,
           send_ack e ''keyboard_event''])
       (py_emit (Print ''[!] Keyboard event error''))"

definition handle_start_stream :: "env \<Rightarrow> comp" where
  "handle_start_stream e =
     py_try
       (py_block
          [py_if (\<lambda>c. \<not> is_streaming c)
             (py_block
                [py_modify (\<lambda>c. c\<lparr>is_streaming := True\<rparr>),
                 py_emit CreateTask,
                 py_modify (\<lambda>c. c\<lparr>stream_task := True\<rparr>),
                 py_emit (Print ''[*] Screen streaming started'')])
             py_skip,
           send_ack e ''start_stream''])
       (py_emit (Print ''[!] Start stream error''))"

definition handle_stop_stream :: "env \<Rightarrow> comp" where
  "handle_stop_stream e =
     py_try
       (py_block
          [py_modify (\<lambda>c. c\<lparr>is_streaming := False\<rparr>),
           py_if stream_task
             (py_block
                [py_emit CancelTask,
                 py_modify (\<lambda>c. c\<lparr>stream_task := False\<rparr>)])
             py_skip,
           py_emit (Print ''[*] Screen streaming stopped''),
           send_ack e ''stop_stream''])
       (py_emit (Print ''[!] Stop stream error''))"

subsection \<open>Message processing\<close>

text \<open>
  \<^verbatim>\<open>process_message\<close>. A decoded message that is not an object has no \<^verbatim>\<open>get\<close>
  (\<^verbatim>\<open>AttributeError\<close>). The call \<^verbatim>\<open>self.handle_mouse_event(event, **message)\<close> passes
  every key of the message as a keyword argument: a key \<^verbatim>\<open>event\<close> or \<^verbatim>\<open>self\<close> collides
  with the positional parameter of that name, and the call raises \<^verbatim>\<open>TypeError\<close> before
  the handler's body runs.
\<close>

definition dispatch :: "env \<Rightarrow> json \<Rightarrow> dict \<Rightarrow> comp" where
  "dispatch e msg_type message =
     (if msg_type = JStr ''screenshot_request'' then handle_screenshot_request e
      else if msg_type = JStr ''shutdown'' then handle_shutdown e
      else if msg_type = JStr ''browser'' then
        handle_browser e (dict_get_or message ''url'' (JStr []))
      else if msg_type = JStr ''type'' then
        handle_type e (dict_get_or message ''text'' (JStr []))
      else if msg_type = JStr ''mouse_event'' then
        (if has_key message ''event'' \<or> has_key message ''self'' then py_raise TypeError
         else handle_mouse_event e (dict_get_or message ''event'' (JStr [])) message)
      else if msg_type = JStr ''keyboard_event'' then
        handle_keyboard_event e (dict_get_or message ''event'' (JStr []))
          (dict_get message ''key'') (dict_get message ''code'')
      else if msg_type = JStr ''start_stream'' then handle_start_stream e
      else if msg_type = JStr ''stop_stream'' then handle_stop_stream e
      else py_print e ''[!] Unknown command'' msg_type)"

definition process_message :: "env \<Rightarrow> json \<Rightarrow> comp" where
  "process_message e message =
     py_try
       (case message of
          JObj m \<Rightarrow>
            (if dict_get m ''type'' = JNull then py_skip
             else py_seq (py_print e ''[*] Received command'' (dict_get m ''type''))
                    (dispatch e (dict_get m ''type'') m))
        | _ \<Rightarrow> py_raise AttributeError)
       (py_emit (Print ''[!] Message processing error''))"

subsection \<open>Connection\<close>

text \<open>\<^verbatim>\<open>connect\<close>, given whether \<^verbatim>\<open>websockets.connect\<close> succeeds; it returns that flag.\<close>

definition connect :: "bool \<Rightarrow> comp" where
  "connect ok =
     py_seq (py_emit Connect)
       (if ok then py_seq (py_modify (\<lambda>c. c\<lparr>ws := True\<rparr>)) (py_emit (Print ''[+] Connected to server''))
        else py_emit (Print ''[!] Connection failed''))"

text \<open>\<^verbatim>\<open>disconnect\<close>, given whether \<^verbatim>\<open>self.ws.close()\<close> raises.\<close>

definition disconnect :: "bool \<Rightarrow> comp" where
  "disconnect close_raises =
     py_try
       (py_block
          [py_modify (\<lambda>c. c\<lparr>is_streaming := False\<rparr>),
           py_if stream_task
             (py_block
                [py_emit CancelTask,
                 py_modify (\<lambda>c. c\<lparr>stream_task := False\<rparr>)])
             py_skip,
           py_if ws
             (py_block
                [py_emit WsClose,
                 if close_raises then py_raise TransportError else py_skip,
                 py_modify (\<lambda>c. c\<lparr>ws := False\<rparr>)])
             py_skip,
           py_emit (Print ''[-] Disconnected from server'')])
       (py_emit (Print ''[!] Error during disconnect''))"

subsection \<open>The streaming loop\<close>

text \<open>
  \<^verbatim>\<open>_stream_screen\<close> runs as a task of its own, beside the receive loop. One \<open>tick\<close>
  is what one pass of its \<^verbatim>\<open>while\<close> loop meets: the object's state at the loop head
  (other tasks change it), the environment of the capture and the send, the two clock
  readings, whether an exception other than \<^verbatim>\<open>CancelledError\<close> escapes the body
  (\<open>fault\<close>, raised at the first statement; \<^verbatim>\<open>_capture_screen\<close> and \<^verbatim>\<open>send\<close> catch
  their own), and whether the task is cancelled while it awaits the send or the sleep.
\<close>

record tick =
  self_state :: BlackLineClient
  tick_env :: env
  fault :: bool
  start_time :: real
  end_time :: real
  cancel_at_send :: bool
  cancel_at_sleep :: bool

datatype stream_end = StillRunning | FlagCleared | Cancelled

definition frame_delay :: real where
  "frame_delay = 1 / STREAM_FPS"

definition stream_frame_msg :: "bytes \<Rightarrow> json" where
  "stream_frame_msg image_data =
     JObj [(''type'', JStr ''stream_frame''), (''image'', JStr (b64encode image_data))]"

text \<open>
  One pass of the loop body: the events, and whether the loop goes on (\<open>False\<close>: a
  \<^verbatim>\<open>CancelledError\<close> ended it).
\<close>

definition stream_iteration :: "tick \<Rightarrow> event list \<times> bool" where
  "stream_iteration t =
     (if fault t then ([Print ''[!] Stream error'', Sleep 1], \<not> cancel_at_sleep t)
      else
        (let e = tick_env t;
             c = self_state t;
             image_data = capture_screen e;
             elapsed = end_time t - start_time t;
             sleep_time = max 0 (frame_delay - elapsed)
         in if image_data \<noteq> [] \<and> ws c \<and> cancel_at_send t
            then (capture_events e @ [WsSend (stream_frame_msg image_data)], False)
            else (capture_events e
                  @ (if image_data \<noteq> [] then trace (send e (stream_frame_msg image_data) c) else [])
                  @ [Sleep sleep_time],
                  \<not> cancel_at_sleep t)))"

text \<open>
  The loop over a finite schedule of ticks; \<open>StillRunning\<close> when the schedule ends with
  the loop still in it.
\<close>

fun stream_screen :: "tick list \<Rightarrow> event list \<times> stream_end" where
  "stream_screen [] = ([], StillRunning)"
| "stream_screen (t # ts) =
     (if \<not> is_streaming (self_state t) then ([], FlagCleared)
      else
        (case stream_iteration t of
           (es, True) \<Rightarrow> (case stream_screen ts of (es', r) \<Rightarrow> (es @ es', r))
         | (es, False) \<Rightarrow> (es, Cancelled)))"

subsection \<open>The main loop\<close>

text \<open>
  \<^verbatim>\<open>run\<close> never returns, so it is run against a finite schedule: for every pass of the
  outer loop, what the connection attempt meets. An established connection delivers
  frames (a decoded message with the environment of its handler, or text that is not
  JSON) until \<^verbatim>\<open>recv\<close> raises \<^verbatim>\<open>ConnectionClosed\<close> or another exception.
\<close>

datatype frame = Frame env json | Malformed

datatype recv_end = ConnectionClosed | ReceiveError

datatype attempt = Refused | Established "frame list" recv_end bool

fun message_loop :: "frame list \<Rightarrow> recv_end \<Rightarrow> comp" where
  "message_loop [] fin c =
     (case fin of
        ConnectionClosed \<Rightarrow> py_emit (Print ''[!] Connection closed by server'') c
      | ReceiveError \<Rightarrow> py_emit (Print ''[!] Receive error'') c)"
| "message_loop (Malformed # fs) fin c =
     py_seq (py_emit (Print ''[!] Invalid JSON received'')) (message_loop fs fin) c"
| "message_loop (Frame e data # fs) fin c =
     (case process_message e data c of
        ((es, Some x), c') \<Rightarrow> ((es @ [Print ''[!] Receive error''], None), c')
      | ((es, None), c') \<Rightarrow>
          (case message_loop fs fin c' of ((es', r), c'') \<Rightarrow> ((es @ es', r), c'')))"

text \<open>
  One pass of the outer \<^verbatim>\<open>while True\<close>. After a refused connection the pass ends
  with the sleep and \<^verbatim>\<open>continue\<close>; otherwise the receive loop runs inside the outer
  \<^verbatim>\<open>try\<close>, and the cleanup and the sleep follow it.
\<close>

fun loop_pass :: "attempt \<Rightarrow> comp" where
  "loop_pass Refused =
     py_try
       (py_block
          [connect False,
           py_emit (Print ''[!] Reconnecting in 5 seconds...''),
           py_emit (Sleep RECONNECT_DELAY)])
       (py_block
          [py_emit (Print ''[!] Critical error''),
           disconnect False,
           py_emit (Print ''[!] Reconnecting in 5 seconds...''),
           py_emit (Sleep RECONNECT_DELAY)])"
| "loop_pass (Established frames fin close_raises) =
     py_block
       [py_try
          (py_seq (connect True) (message_loop frames fin))
          (py_emit (Print ''[!] Critical error'')),
        disconnect close_raises,
        py_emit (Print ''[!] Reconnecting in 5 seconds...''),
        py_emit (Sleep RECONNECT_DELAY)]"

text \<open>
  The loop itself. An exception that left a pass would end the loop and appear as the
  result's exception; the schedule's end leaves the loop running.
\<close>

fun run_loop :: "attempt list \<Rightarrow> comp" where
  "run_loop [] = py_skip"
| "run_loop (a # rest) = py_seq (loop_pass a) (run_loop rest)"

definition run :: "attempt list \<Rightarrow> comp" where
  "run schedule =
     py_block
       [py_emit (Print ''[*] BlackLine Client starting...''),
        py_emit (Print ''[*] Client name''),
        py_emit (Print ''[*] Server''),
        run_loop schedule]"

section \<open>The directory: \<^verbatim>\<open>database.py\<close>\<close>

datatype ClientStatus = ONLINE | OFFLINE

definition status_value :: "ClientStatus \<Rightarrow> string" where
  "status_value st = (case st of ONLINE \<Rightarrow> ''online'' | OFFLINE \<Rightarrow> ''offline'')"

text \<open>The dataclass \<^verbatim>\<open>Client\<close>; its field \<^verbatim>\<open>id\<close> is \<open>id'\<close> here.\<close>

record Client =
  id' :: int
  name :: string
  status :: ClientStatus
  last_seen :: "real option"

text \<open>
  The table \<^verbatim>\<open>clients\<close>: its rows in \<^verbatim>\<open>rowid\<close> order, and the largest id handed out so
  far (\<^verbatim>\<open>AUTOINCREMENT\<close>).
\<close>

record database =
  rows :: "Client list"
  seq :: int

definition get_or_create_client :: "string \<Rightarrow> real \<Rightarrow> database \<Rightarrow> Client \<times> database" where
  "get_or_create_client client_name now d =
     (case find (\<lambda>r. name r = client_name) (rows d) of
        Some r \<Rightarrow> (r, d)
      | None \<Rightarrow>
          (let client = \<lparr>id' = seq d + 1, name = client_name, status = OFFLINE, last_seen = Some now\<rparr>
           in (client, d\<lparr>rows := rows d @ [client], seq := seq d + 1\<rparr>)))"

definition update_client_status :: "int \<Rightarrow> ClientStatus \<Rightarrow> real \<Rightarrow> database \<Rightarrow> database" where
  "update_client_status client_id st now d =
     d\<lparr>rows := map (\<lambda>r. if id' r = client_id then r\<lparr>status := st, last_seen := Some now\<rparr> else r) (rows d)\<rparr>"

definition get_all_clients :: "database \<Rightarrow> Client list" where
  "get_all_clients d = rows d"

section \<open>The Hub: \<^verbatim>\<open>server.py\<close>\<close>

text \<open>
  The Hub runs on one \<^verbatim>\<open>asyncio\<close> event loop: a coroutine runs alone from one
  \<^verbatim>\<open>await\<close> that suspends it to the next. The state below is what the coroutines
  share: the two dictionaries of \<^verbatim>\<open>ConnectionManager\<close>, the directory, the dictionary
  \<^verbatim>\<open>screenshot_pending\<close>, and the \<^verbatim>\<open>asyncio.Future\<close> objects, kept in a store under
  their identities since two coroutines can hold the same one. A \<^verbatim>\<open>WebSocket\<close> object
  is its identity, a number.
\<close>

datatype future = Pending | Done json | CancelledFuture

record hub =
  active_connections :: "int \<rightharpoonup> nat"
  name_to_id :: "string \<rightharpoonup> int"
  db :: database
  screenshot_pending :: "int \<rightharpoonup> nat"
  futures :: "nat \<Rightarrow> future"
  next_future :: nat

datatype bot_text = OfflineText int | TimeoutText int | ErrorText

datatype bot_call = SendMessage int bot_text | SendPhoto int bytes int

datatype hub_event =
    HubPrint string
  | Accept nat
  | SendJson nat json
  | Bot bot_call

text \<open>
  The environment of the Hub: which sockets raise on \<^verbatim>\<open>send_json\<close>, which calls of the
  Telegram bot raise, and \<^verbatim>\<open>base64.b64decode\<close> of the standard library (\<open>None\<close> where
  it raises).
\<close>

record hub_env =
  ws_fails :: "nat \<Rightarrow> bool"
  bot_fails :: "bot_call \<Rightarrow> bool"
  b64decode :: "string \<Rightarrow> bytes option"

subsection \<open>\<^verbatim>\<open>ConnectionManager\<close>\<close>

text \<open>\<^verbatim>\<open>ConnectionManager.connect\<close>; \<open>now\<close> is the clock read by the directory.\<close>

definition manager_connect :: "nat \<Rightarrow> string \<Rightarrow> real \<Rightarrow> hub \<Rightarrow> int \<times> hub \<times> hub_event list" where
  "manager_connect websocket client_name now h =
     (let (client, d) = get_or_create_client client_name now (db h)
      in (id' client,
          h\<lparr>active_connections := (active_connections h)(id' client \<mapsto> websocket),
            name_to_id := (name_to_id h)(client_name \<mapsto> id' client),
            db := update_client_status (id' client) ONLINE now d\<rparr>,
          [Accept websocket, HubPrint ''[+] Client connected'']))"

text \<open>\<^verbatim>\<open>ConnectionManager.disconnect\<close>.\<close>

definition manager_disconnect :: "int \<Rightarrow> hub \<Rightarrow> hub \<times> hub_event list" where
  "manager_disconnect client_id h =
     (h\<lparr>active_connections := (active_connections h)(client_id := None),
        name_to_id := (\<lambda>n. if name_to_id h n = Some client_id then None else name_to_id h n)\<rparr>,
      [HubPrint ''[-] Client disconnected''])"

text \<open>\<^verbatim>\<open>ConnectionManager.send_to_client\<close>.\<close>

definition send_to_client :: "hub_env \<Rightarrow> int \<Rightarrow> json \<Rightarrow> hub \<Rightarrow> bool \<times> hub_event list" where
  "send_to_client E client_id data h =
     (case active_connections h client_id of
        None \<Rightarrow> (False, [])
      | Some w \<Rightarrow>
          (if ws_fails E w then (False, [SendJson w data, HubPrint ''[!] Error sending to client''])
           else (True, [SendJson w data])))"

subsection \<open>\<^verbatim>\<open>websocket_endpoint\<close>\<close>

text \<open>
  The endpoint's coroutine, one per connection, cut at its \<^verbatim>\<open>await\<close>s: the accept, one
  pass of the receive loop for a text frame (\<open>None\<close>: text that is not JSON), and the
  \<^verbatim>\<open>WebSocketDisconnect\<close> that ends it. Any other exception of a pass ends the coroutine
  the same way; the pass returns whether the coroutine goes on.
\<close>

definition endpoint_accept :: "nat \<Rightarrow> string \<Rightarrow> real \<Rightarrow> hub \<Rightarrow> int \<times> hub \<times> hub_event list" where
  "endpoint_accept websocket client_name now h = manager_connect websocket client_name now h"

definition endpoint_disconnect :: "int \<Rightarrow> real \<Rightarrow> hub \<Rightarrow> hub \<times> hub_event list" where
  "endpoint_disconnect client_id now h =
     (let (h', es) = manager_disconnect client_id h
      in (h'\<lparr>db := update_client_status client_id OFFLINE now (db h')\<rparr>, es))"

definition endpoint_error :: "int \<Rightarrow> real \<Rightarrow> hub \<Rightarrow> hub \<times> hub_event list" where
  "endpoint_error client_id now h =
     (let (h', es) = endpoint_disconnect client_id now h
      in (h', HubPrint ''[!] Error in websocket'' # es))"

definition endpoint_receive ::
  "int \<Rightarrow> json option \<Rightarrow> real \<Rightarrow> hub \<Rightarrow> bool \<times> hub \<times> hub_event list" where
  "endpoint_receive client_id data now h =
     (case data of
        None \<Rightarrow> (True, h, [HubPrint ''[!] Invalid JSON from client''])
      | Some (JObj message) \<Rightarrow>
          (let msg_type = dict_get message ''type'' in
           if msg_type = JStr ''screenshot'' \<and> has_key message ''image'' then
             (case screenshot_pending h client_id of
                None \<Rightarrow> (True, h, [])
              | Some f \<Rightarrow>
                  (if futures h f = Pending
                   then (True, h\<lparr>futures := (futures h)(f := Done (dict_get message ''image''))\<rparr>, [])
                   else (let (h', es) = endpoint_error client_id now h in (False, h', es))))
           else if msg_type = JStr ''stream_frame'' \<and> has_key message ''image'' then (True, h, [])
           else if msg_type = JStr ''ack'' then (True, h, [HubPrint ''[*] Client acknowledged''])
           else (True, h, []))
      | Some other \<Rightarrow> (let (h', es) = endpoint_error client_id now h in (False, h', es)))"

subsection \<open>\<^verbatim>\<open>send_screenshot\<close>\<close>

text \<open>
  \<^verbatim>\<open>send_screenshot\<close>, cut at the \<^verbatim>\<open>await\<close>s where other coroutines of the Hub run.
  The first part runs to \<^verbatim>\<open>asyncio.wait_for\<close>: it ends the call at once for an agent
  that is not connected, or leaves the caller waiting on the future it registered. The
  caller then wakes up: the future is done, or the 10 seconds have passed with the
  future still pending, and \<^verbatim>\<open>wait_for\<close> cancels it and raises \<^verbatim>\<open>TimeoutError\<close>.
  Each branch goes on to a call of the bot, which is awaited in its turn; the
  \<^verbatim>\<open>finally\<close> clause runs only when the last of these calls has returned or raised.
  The result of the call is the value returned, or the exception that leaves the
  function.
\<close>

datatype begun = Returned "exn + bool" | Waiting nat

definition call_bot :: "hub_env \<Rightarrow> bot_call \<Rightarrow> exn option \<times> hub_event list" where
  "call_bot E call = (if bot_fails E call then Some BotError else None, [Bot call])"

definition send_screenshot_begin ::
  "hub_env \<Rightarrow> int \<Rightarrow> int \<Rightarrow> hub \<Rightarrow> begun \<times> hub \<times> hub_event list" where
  "send_screenshot_begin E client_id chat_id h =
     (if active_connections h client_id = None then
        (case call_bot E (SendMessage chat_id (OfflineText client_id)) of
           (Some x, es) \<Rightarrow> (Returned (Inl x), h, es)
         | (None, es) \<Rightarrow> (Returned (Inr False), h, es))
      else
        (let fut = next_future h;
             h1 = h\<lparr>futures := (futures h)(fut := Pending),
                    next_future := Suc fut,
                    screenshot_pending := (screenshot_pending h)(client_id \<mapsto> fut)\<rparr>;
             (sent, es) = send_to_client E client_id (JObj [(''type'', JStr ''screenshot_request'')]) h1
         in (Waiting fut, h1, es)))"

text \<open>The \<^verbatim>\<open>finally\<close> clause.\<close>

definition clear_pending :: "int \<Rightarrow> hub \<Rightarrow> hub" where
  "clear_pending client_id h =
     (if screenshot_pending h client_id \<noteq> None
      then h\<lparr>screenshot_pending := (screenshot_pending h)(client_id := None)\<rparr>
      else h)"

text \<open>
  Where the caller stands once it has woken up: suspended in \<^verbatim>\<open>bot.send_photo\<close>, or in
  a \<^verbatim>\<open>bot.send_message\<close> with the text of the \<^verbatim>\<open>except\<close> clause it is in, or at the
  end of the call.
\<close>

datatype woken = AwaitPhoto bytes | AwaitMessage bot_text | Ended "exn + bool"

text \<open>
  The caller wakes up, up to the call of the bot it makes next. On a timeout the future
  is cancelled and the entry of \<^verbatim>\<open>screenshot_pending\<close> that holds it stays in place. A
  reply that \<^verbatim>\<open>base64.b64decode\<close> rejects leads to the handler
  \<^verbatim>\<open>except Exception\<close>. A future found cancelled raises \<^verbatim>\<open>CancelledError\<close>, which no
  clause handles.
\<close>

definition send_screenshot_wake :: "hub_env \<Rightarrow> nat \<Rightarrow> int \<Rightarrow> hub \<Rightarrow> woken \<times> hub" where
  "send_screenshot_wake E fut client_id h =
     (case futures h fut of
        Done image_data \<Rightarrow>
          (case image_data of
             JStr s \<Rightarrow>
               (case b64decode E s of
                  None \<Rightarrow> (AwaitMessage ErrorText, h)
                | Some image_bytes \<Rightarrow> (AwaitPhoto image_bytes, h))
           | _ \<Rightarrow> (AwaitMessage ErrorText, h))
      | Pending \<Rightarrow>
          (AwaitMessage (TimeoutText client_id),
           h\<lparr>futures := (futures h)(fut := CancelledFuture)\<rparr>)
      | CancelledFuture \<Rightarrow> (Ended (Inl CancelledError), clear_pending client_id h))"

text \<open>
  \<^verbatim>\<open>bot.send_photo\<close> is over, and whether it returned: if so the call returns \<^verbatim>\<open>True\<close>
  through the \<^verbatim>\<open>finally\<close> clause; otherwise the exception of the bot takes it to the
  handler \<^verbatim>\<open>except Exception\<close>, with the state as it is.
\<close>

definition photo_sent ::
  "hub_env \<Rightarrow> int \<Rightarrow> bytes \<Rightarrow> int \<Rightarrow> hub \<Rightarrow> bool \<times> hub \<times> hub_event list" where
  "photo_sent E chat_id image_bytes client_id h =
     (case call_bot E (SendPhoto chat_id image_bytes client_id) of
        (Some x, es) \<Rightarrow> (False, h, es)
      | (None, es) \<Rightarrow> (True, clear_pending client_id h, es))"

text \<open>
  The \<^verbatim>\<open>bot.send_message\<close> of an \<^verbatim>\<open>except\<close> clause is over: the call returns
  \<^verbatim>\<open>False\<close>, or the exception of the bot leaves the function; the \<^verbatim>\<open>finally\<close> clause
  runs in both cases.
\<close>

definition message_sent ::
  "hub_env \<Rightarrow> int \<Rightarrow> bot_text \<Rightarrow> int \<Rightarrow> hub \<Rightarrow> (exn + bool) \<times> hub \<times> hub_event list" where
  "message_sent E chat_id text client_id h =
     (case call_bot E (SendMessage chat_id text) of
        (Some x, es) \<Rightarrow> (Inl x, clear_pending client_id h, es)
      | (None, es) \<Rightarrow> (Inr False, clear_pending client_id h, es))"

text \<open>
  The rest of the call from where the caller woke up; \<open>meanwhile n\<close> is what the other
  coroutines do to the shared state during the \<open>n\<close>-th call of the bot.
\<close>

definition send_screenshot_end ::
  "hub_env \<Rightarrow> int \<Rightarrow> int \<Rightarrow> (nat \<Rightarrow> hub \<Rightarrow> hub) \<Rightarrow> woken \<Rightarrow> hub \<Rightarrow>
     (exn + bool) \<times> hub \<times> hub_event list" where
  "send_screenshot_end E client_id chat_id meanwhile w h =
     (case w of
        Ended r \<Rightarrow> (r, h, [])
      | AwaitMessage text \<Rightarrow> message_sent E chat_id text client_id (meanwhile 1 h)
      | AwaitPhoto image_bytes \<Rightarrow>
          (case photo_sent E chat_id image_bytes client_id (meanwhile 1 h) of
             (sent, h', es) \<Rightarrow>
               if sent then (Inr True, h', es)
               else (case message_sent E chat_id ErrorText client_id (meanwhile 2 h') of
                       (r, h'', es') \<Rightarrow> (r, h'', es @ es'))))"

text \<open>
  The second part of the call when nothing else runs during its calls of the bot: the
  wake-up, the calls and the \<^verbatim>\<open>finally\<close> clause in one step.
\<close>

definition send_screenshot_resume ::
  "hub_env \<Rightarrow> nat \<Rightarrow> int \<Rightarrow> int \<Rightarrow> hub \<Rightarrow> (exn + bool) \<times> hub \<times> hub_event list" where
  "send_screenshot_resume E fut client_id chat_id h =
     (case send_screenshot_wake E fut client_id h of
        (w, h') \<Rightarrow> send_screenshot_end E client_id chat_id (\<lambda>n h. h) w h')"

text \<open>
  The whole call, for a caller that waits: \<open>meanwhile 0\<close> is what the other coroutines
  do to the shared state while this one waits for the reply, \<open>meanwhile 1\<close> and
  \<open>meanwhile 2\<close> what they do during its calls of the bot.
\<close>

definition send_screenshot ::
  "hub_env \<Rightarrow> int \<Rightarrow> int \<Rightarrow> (nat \<Rightarrow> hub \<Rightarrow> hub) \<Rightarrow> hub \<Rightarrow> (exn + bool) \<times> hub \<times> hub_event list" where
  "send_screenshot E client_id chat_id meanwhile h =
     (case send_screenshot_begin E client_id chat_id h of
        (Returned r, h1, es) \<Rightarrow> (r, h1, es)
      | (Waiting fut, h1, es) \<Rightarrow>
          (case send_screenshot_wake E fut client_id (meanwhile 0 h1) of
             (w, h2) \<Rightarrow>
               (case send_screenshot_end E client_id chat_id meanwhile w h2 of
                  (r, h3, es') \<Rightarrow> (r, h3, es @ es'))))"

subsection \<open>Listing\<close>





text \<open>\<^verbatim>\<open>get_clients\<close>: id, name, status and last-seen time of every record.\<close>

definition get_clients :: "hub \<Rightarrow> (int \<times> string \<times> string \<times> real option) list" where
  "get_clients h =
     map (\<lambda>c. (id' c, name c, status_value (status c), last_seen c)) (get_all_clients (db h))"


text \<open>
  What the other coroutines of the Hub can do between two steps of one of them. The end
  of a screenshot request is there in one step, and in its parts: the wake-up and the
  ends of the calls of the bot.
\<close>

datatype hub_step =
    StepAccept nat string real
  | StepReceive int "json option" real
  | StepDisconnect int real
  | StepBegin int int
  | StepResume nat int int
  | StepWake nat int
  | StepPhotoSent int bytes int
  | StepMessageSent int bot_text int

fun apply_step :: "hub_env \<Rightarrow> hub_step \<Rightarrow> hub \<Rightarrow> hub" where
  "apply_step E (StepAccept w client_name now) h = fst (snd (endpoint_accept w client_name now h))"
| "apply_step E (StepReceive client_id data now) h = fst (snd (endpoint_receive client_id data now h))"
| "apply_step E (StepDisconnect client_id now) h = fst (endpoint_disconnect client_id now h)"
| "apply_step E (StepBegin client_id chat_id) h = fst (snd (send_screenshot_begin E client_id chat_id h))"
| "apply_step E (StepResume fut client_id chat_id) h =
     fst (snd (send_screenshot_resume E fut client_id chat_id h))"
| "apply_step E (StepWake fut client_id) h = snd (send_screenshot_wake E fut client_id h)"
| "apply_step E (StepPhotoSent chat_id image_bytes client_id) h =
     fst (snd (photo_sent E chat_id image_bytes client_id h))"
| "apply_step E (StepMessageSent chat_id text client_id) h =
     fst (snd (message_sent E chat_id text client_id h))"

fun apply_steps :: "hub_env \<Rightarrow> hub_step list \<Rightarrow> hub \<Rightarrow> hub" where
  "apply_steps E [] h = h"
| "apply_steps E (s # ss) h = apply_steps E ss (apply_step E s h)"

text \<open>A Hub that has just started over a given directory.\<close>

definition fresh_hub :: "database \<Rightarrow> hub" where
  "fresh_hub d =
     \<lparr>active_connections = Map.empty, name_to_id = Map.empty, db = d,
      screenshot_pending = Map.empty, futures = (\<lambda>f. Pending), next_future = 0\<rparr>"

section \<open>Observations on traces\<close>

text \<open>The JSON values handed to \<^verbatim>\<open>self.ws.send\<close>, in order, and the acks among them.\<close>

fun sends :: "event list \<Rightarrow> json list" where
  "sends [] = []"
| "sends (WsSend data # es) = data # sends es"
| "sends (other # es) = sends es"

fun is_ack :: "json \<Rightarrow> bool" where
  "is_ack (JObj m) = (dict_get m ''type'' = JStr ''ack'')"
| "is_ack other = False"

definition acks :: "event list \<Rightarrow> json list" where
  "acks es = filter is_ack (sends es)"



text \<open>
  The order that \<^verbatim>\<open>handle_shutdown\<close> is to keep, checked along a trace: no call of
  \<^verbatim>\<open>os.system\<close> before the ack has been handed to the socket (stage 1) and a sleep of
  at least half a second has followed it (stage 2).
\<close>

fun shutdown_order :: "nat \<Rightarrow> event list \<Rightarrow> bool" where
  "shutdown_order stage [] = True"
| "shutdown_order stage (WsSend data # es) =
     shutdown_order (if stage = 0 \<and> data = ack ''shutdown'' then 1 else stage) es"
| "shutdown_order stage (Sleep d # es) =
     shutdown_order (if stage = 1 \<and> 5 / 10 \<le> d then 2 else stage) es"
| "shutdown_order stage (Act (OsSystem cmd) # es) = (stage = 2 \<and> shutdown_order stage es)"
| "shutdown_order stage (other # es) = shutdown_order stage es"

text \<open>The number of connection attempts in a trace.\<close>

definition attempts :: "event list \<Rightarrow> nat" where
  "attempts es = length (filter (\<lambda>e. e = Connect) es)"

text \<open>
  The delay between connection attempts, checked along a trace: \<open>slept\<close> is the time
  slept since the last attempt (\<open>None\<close> before the first one), and every attempt but
  the first needs at least \<open>RECONNECT_DELAY\<close> of it.
\<close>

fun delays_ok :: "real option \<Rightarrow> event list \<Rightarrow> bool" where
  "delays_ok slept [] = True"
| "delays_ok slept (Connect # es) =
     ((case slept of None \<Rightarrow> True | Some d \<Rightarrow> RECONNECT_DELAY \<le> d) \<and> delays_ok (Some 0) es)"
| "delays_ok slept (Sleep d # es) = delays_ok (map_option (\<lambda>s. s + d) slept) es"
| "delays_ok slept (other # es) = delays_ok slept es"

text \<open>An event that is neither a connection attempt nor a sleep of negative length.\<close>

fun benign :: "event \<Rightarrow> bool" where
  "benign Connect = False"
| "benign (Sleep d) = (0 \<le> d)"
| "benign other = True"

definition benign_comp :: "comp \<Rightarrow> bool" where
  "benign_comp m = (\<forall>c. list_all benign (trace (m c)))"

text \<open>The calls of the Telegram bot in a trace of the Hub, in order.\<close>

fun bot_calls :: "hub_event list \<Rightarrow> bot_call list" where
  "bot_calls [] = []"
| "bot_calls (Bot call # es) = call # bot_calls es"
| "bot_calls (other # es) = bot_calls es"

text \<open>A step that is not the wake-up of the caller waiting on a given future.\<close>

fun not_resume_of :: "nat \<Rightarrow> hub_step \<Rightarrow> bool" where
  "not_resume_of f (StepResume f' client_id chat_id) = (f' \<noteq> f)"
| "not_resume_of f (StepWake f' client_id) = (f' \<noteq> f)"
| "not_resume_of f other = True"

text \<open>Every future held in \<^verbatim>\<open>screenshot_pending\<close> was created earlier.\<close>

definition pending_created :: "hub \<Rightarrow> bool" where
  "pending_created h = (\<forall>k f. screenshot_pending h k = Some f \<longrightarrow> f < next_future h)"

text \<open>
  A future that no step of the Hub can resolve any more: it is pending, it was created
  earlier, and no entry of \<^verbatim>\<open>screenshot_pending\<close> holds it.
\<close>

definition orphaned :: "nat \<Rightarrow> hub \<Rightarrow> bool" where
  "orphaned f h =
     (futures h f = Pending \<and> f < next_future h \<and> (\<forall>k. screenshot_pending h k \<noteq> Some f))"


text \<open>
  A computation is quiet when it hands nothing to the socket and leaves the object's
  state as it was.
\<close>

definition quiet :: "comp \<Rightarrow> bool" where
  "quiet m = (\<forall>c. sends (trace (m c)) = [] \<and> final (m c) = c)"


section \<open>Concrete inputs\<close>

definition quiet_env :: env where
  "quiet_env = \<lparr>raises = (\<lambda>a. False), send_raises = (\<lambda>d. False), grab = Some [255, 216, 255], os_name = ''posix'',
      console_rejects = (\<lambda>v. False)\<rparr>"

definition failing_env :: env where
  "failing_env = \<lparr>raises = (\<lambda>a. True), send_raises = (\<lambda>d. False), grab = None, os_name = ''posix'',
      console_rejects = (\<lambda>v. False)\<rparr>"

definition connected_idle :: BlackLineClient where
  "connected_idle = \<lparr>ws = True, is_streaming = False, stream_task = False\<rparr>"

definition type_hello :: json where
  "type_hello = JObj [(''type'', JStr ''type''), (''text'', JStr ''hello'')]"

text \<open>
  A console that encodes ASCII only, and a \<^verbatim>\<open>type\<close> command whose text is the single
  character U+00E9.
\<close>

definition ascii_console_env :: env where
  "ascii_console_env =
     quiet_env\<lparr>console_rejects :=
       (\<lambda>v. case v of JStr s \<Rightarrow> list_ex (\<lambda>ch. 127 < (of_char ch :: nat)) s | _ \<Rightarrow> False)\<rparr>"

definition type_accented :: json where
  "type_accented = JObj [(''type'', JStr ''type''), (''text'', JStr [CHR 0xE9])]"


definition click_at :: dict where
  "click_at = [(''x'', JInt 10), (''y'', JInt 20)]"

definition click_message :: json where
  "click_message = JObj ((''type'', JStr ''mouse_event'') # (''event'', JStr ''click'') # click_at)"

definition streaming_client :: BlackLineClient where
  "streaming_client = \<lparr>ws = True, is_streaming = True, stream_task = True\<rparr>"

definition good_tick :: tick where
  "good_tick =
     \<lparr>self_state = streaming_client, tick_env = quiet_env, fault = False,
      start_time = 0, end_time = 1 / 100, cancel_at_send = False, cancel_at_sleep = False\<rparr>"

definition capture_error_tick :: tick where
  "capture_error_tick = good_tick\<lparr>tick_env := quiet_env\<lparr>grab := None\<rparr>\<rparr>"

definition send_error_tick :: tick where
  "send_error_tick = good_tick\<lparr>tick_env := quiet_env\<lparr>send_raises := (\<lambda>d. True)\<rparr>\<rparr>"

definition fault_tick :: tick where
  "fault_tick = good_tick\<lparr>fault := True\<rparr>"

definition cancelled_tick :: tick where
  "cancelled_tick = good_tick\<lparr>cancel_at_sleep := True\<rparr>"

definition disconnected :: BlackLineClient where
  "disconnected = \<lparr>ws = False, is_streaming = False, stream_task = False\<rparr>"

definition rough_schedule :: "attempt list" where
  "rough_schedule =
     [Refused,
      Refused,
      Established [Malformed, Frame failing_env type_hello, Frame quiet_env (JInt 7)] ReceiveError True,
      Refused,
      Established [Frame quiet_env type_hello] ConnectionClosed False]"

definition quiet_hub_env :: hub_env where
  "quiet_hub_env =
     \<lparr>ws_fails = (\<lambda>w. False), bot_fails = (\<lambda>call. False),
      b64decode = (\<lambda>s. if s = ''/9j/'' then Some [255, 216, 255] else None)\<rparr>"

text \<open>A Hub whose calls of the Telegram bot all raise.\<close>

definition bot_down_env :: hub_env where
  "bot_down_env = quiet_hub_env\<lparr>bot_fails := (\<lambda>call. True)\<rparr>"

definition empty_db :: database where
  "empty_db = \<lparr>rows = [], seq = 0\<rparr>"


text \<open>A Hub with one agent connected, and the same Hub after a second connection under the same name.\<close>

definition once_connected :: hub where
  "once_connected = fst (snd (endpoint_accept 1 ''desk-1'' 10 (fresh_hub empty_db)))"

definition twice_connected :: hub where
  "twice_connected = fst (snd (endpoint_accept 2 ''desk-1'' 20 once_connected))"

definition screenshot_reply :: json where
  "screenshot_reply = JObj [(''type'', JStr ''screenshot''), (''image'', JStr ''/9j/'')]"

text \<open>The Hub with two screenshot requests for \<^verbatim>\<open>desk-1\<close> in flight.\<close>

definition both_waiting :: hub where
  "both_waiting =
     fst (snd (send_screenshot_begin quiet_hub_env 1 78
       (fst (snd (send_screenshot_begin quiet_hub_env 1 77 once_connected)))))"

section \<open>Properties of the agent\<close>

subsection \<open>Acknowledgements\<close>

lemmas comp_defs =
  py_try_def py_seq_def py_emit_def py_skip_def py_if_def py_raise_def py_modify_def
  act_def send_ack_def send_def capture_def py_print_def

lemmas obs_defs = trace_def raised_def final_def acks_def



lemma quiet_print: "quiet (py_emit (Print s))"
  by (simp add: quiet_def py_emit_def obs_defs)








lemma is_ack_ack: "is_ack (ack k)"
  by (simp add: ack_def dict_get_def)
















lemma shutdown_acks:
  "ws c \<Longrightarrow> raised (handle_shutdown e c) = None \<and>
     acks (trace (handle_shutdown e c)) = [ack ''shutdown'']"
  by (simp add: handle_shutdown_def comp_defs obs_defs is_ack_ack)











lemma raised_try_emit: "raised (py_try m (py_emit x) c) = None"
  by (auto simp: py_try_def py_emit_def obs_defs split: prod.splits option.splits)







text \<open>
  A text that the console cannot encode: the \<^verbatim>\<open>print\<close> at the head of \<^verbatim>\<open>handle_type\<close>
  raises inside the \<^verbatim>\<open>try\<close>, so nothing is typed and no ack is sent, although
  \<^verbatim>\<open>pyautogui.write\<close> would not have raised.
\<close>

lemma unprintable_text_no_ack:
  "\<not> raises ascii_console_env (Write (JStr [CHR 0xE9])) \<and>
   trace (process_message ascii_console_env type_accented connected_idle) =
     [Print ''[*] Received command'', Print ''[!] Type error'']"
  by (simp add: ascii_console_env_def quiet_env_def type_accented_def connected_idle_def
      process_message_def dispatch_def handle_type_def print_typing_def dict_get_def
      dict_get_or_def py_print_def py_try_def py_seq_def py_raise_def py_emit_def trace_def)

subsection \<open>Stopping a stream that is not running\<close>

text \<open>
  C9. When the agent is connected and not streaming (\<^verbatim>\<open>is_streaming\<close> false, no stream
  task), \<^verbatim>\<open>handle_stop_stream\<close> returns normally, leaves the object's state unchanged,
  hands exactly one message to the socket, the ack of \<^verbatim>\<open>stop_stream\<close>, and does not
  reach its \<^verbatim>\<open>except\<close> clause.
\<close>

theorem stop_stream_idempotent:
  assumes "ws c" and "\<not> is_streaming c" and "\<not> stream_task c"
  shows "final (handle_stop_stream e c) = c \<and>
         raised (handle_stop_stream e c) = None \<and>
         sends (trace (handle_stop_stream e c)) = [ack ''stop_stream''] \<and>
         Print ''[!] Stop stream error'' \<notin> set (trace (handle_stop_stream e c))"
  using assms
  by (simp add: handle_stop_stream_def py_try_def py_seq_def py_emit_def py_skip_def py_if_def
      py_modify_def send_ack_def send_def final_def raised_def trace_def)

text \<open>The theorem of C9 at a connected agent that is not streaming.\<close>

theorem stop_stream_idempotent_witness:
  "final (handle_stop_stream quiet_env connected_idle) = connected_idle \<and>
   sends (trace (handle_stop_stream quiet_env connected_idle)) = [ack ''stop_stream'']"
  using stop_stream_idempotent [of connected_idle quiet_env]
  by (simp add: connected_idle_def)

subsection \<open>Shutdown\<close>

lemma shutdown_trace:
  assumes "ws c"
  shows "trace (handle_shutdown e c) =
       [Print ''[*] Shutdown command received'', WsSend (ack ''shutdown'')]
       @ (if send_raises e (ack ''shutdown'') then [Print ''[!] Send error''] else [])
       @ [Sleep (5 / 10),
          Act (OsSystem (if os_name e = ''nt'' then ''shutdown /s /t 1'' else ''shutdown now''))]
       @ (if raises e (OsSystem (if os_name e = ''nt'' then ''shutdown /s /t 1'' else ''shutdown now''))
          then [Print ''[!] Shutdown error''] else [])"
  using assms
  by (simp add: handle_shutdown_def py_try_def py_seq_def py_emit_def py_skip_def py_if_def
      py_raise_def act_def send_ack_def send_def trace_def)

text \<open>
  C6. On a live connection \<^verbatim>\<open>handle_shutdown\<close> first hands the ack of \<^verbatim>\<open>shutdown\<close> to
  the socket, then sleeps for half a second, and only then calls \<^verbatim>\<open>os.system\<close> with
  the platform's shutdown command: in every execution the trace is the one below, the
  order holds along it, and the platform call is made.
\<close>

theorem shutdown_ack_first:
  assumes "ws c"
  shows "(\<exists>noise tail.
            trace (handle_shutdown e c) =
              [Print ''[*] Shutdown command received'', WsSend (ack ''shutdown'')] @ noise
              @ [Sleep (5 / 10),
                 Act (OsSystem (if os_name e = ''nt'' then ''shutdown /s /t 1'' else ''shutdown now''))]
              @ tail
            \<and> sends noise = [] \<and> sends tail = []) \<and>
         shutdown_order 0 (trace (handle_shutdown e c)) \<and>
         raised (handle_shutdown e c) = None"
proof -
  let ?noise = "if send_raises e (ack ''shutdown'') then [Print ''[!] Send error''] else []"
  let ?cmd = "OsSystem (if os_name e = ''nt'' then ''shutdown /s /t 1'' else ''shutdown now'')"
  let ?tail = "if raises e ?cmd then [Print ''[!] Shutdown error''] else []"
  have t: "trace (handle_shutdown e c) =
      [Print ''[*] Shutdown command received'', WsSend (ack ''shutdown'')] @ ?noise
      @ [Sleep (5 / 10), Act ?cmd] @ ?tail"
    using shutdown_trace [OF assms] .
  have "sends ?noise = []" and "sends ?tail = []"
    by simp_all
  with t have "\<exists>noise tail.
      trace (handle_shutdown e c) =
        [Print ''[*] Shutdown command received'', WsSend (ack ''shutdown'')] @ noise
        @ [Sleep (5 / 10), Act ?cmd] @ tail
      \<and> sends noise = [] \<and> sends tail = []"
    by blast
  moreover have "shutdown_order 0 (trace (handle_shutdown e c))"
    unfolding t by simp
  moreover have "raised (handle_shutdown e c) = None"
    using shutdown_acks [OF assms] by simp
  ultimately show ?thesis
    by (intro conjI)
qed

text \<open>The theorem of C6 at a connected agent on a POSIX system.\<close>

theorem shutdown_ack_first_witness:
  "trace (handle_shutdown quiet_env connected_idle) =
     [Print ''[*] Shutdown command received'', WsSend (ack ''shutdown''),
      Sleep (5 / 10), Act (OsSystem ''shutdown now'')] \<and>
   shutdown_order 0 (trace (handle_shutdown quiet_env connected_idle))"
proof -
  have "ws connected_idle"
    by (simp add: connected_idle_def)
  from shutdown_ack_first [OF this, of quiet_env] shutdown_trace [OF this, of quiet_env]
  show ?thesis
    by (simp add: quiet_env_def)
qed

subsection \<open>Mouse buttons\<close>

lemma button_codes:
  "map_of kwargs ''button'' = Some (JInt n) \<Longrightarrow>
     pyautogui_button kwargs =
       Some (if n = 0 then ''left'' else if n = 1 then ''middle'' else if n = 2 then ''right''
             else ''left'')"
  by (simp add: pyautogui_button_def dict_get_or_def button_map_def)

lemma button_absent:
  "map_of kwargs ''button'' = None \<Longrightarrow> pyautogui_button kwargs = Some ''middle''"
  by (simp add: pyautogui_button_def dict_get_or_def button_map_def)

text \<open>
  C5, at the input where the code departs from it: a click at (10, 20) with no
  \<^verbatim>\<open>button\<close> field. Called with it, \<^verbatim>\<open>handle_mouse_event('click', x=10, y=20)\<close> clicks
  the middle button, since the default of \<^verbatim>\<open>kwargs.get('button', 1)\<close> is the code of
  the middle button. Received as a message, it never gets that far: the call
  \<^verbatim>\<open>handle_mouse_event(event, **message)\<close> passes \<^verbatim>\<open>event\<close> twice and raises, so no
  button is pressed and no ack is sent.
\<close>

theorem mouse_button_absent_is_middle:
  "pyautogui_button click_at = Some ''middle'' \<and>
   trace (handle_mouse_event quiet_env (JStr ''click'') click_at connected_idle) =
     [Act (MoveTo (JInt 10) (JInt 20)), Act (Click ''middle''), WsSend (ack ''mouse_event'')] \<and>
   trace (process_message quiet_env click_message connected_idle) =
     [Print ''[*] Received command'', Print ''[!] Message processing error'']"
proof -
  have "pyautogui_button click_at = Some ''middle''"
    by (simp add: click_at_def pyautogui_button_def dict_get_or_def button_map_def)
  moreover have "trace (handle_mouse_event quiet_env (JStr ''click'') click_at connected_idle) =
     [Act (MoveTo (JInt 10) (JInt 20)), Act (Click ''middle''), WsSend (ack ''mouse_event'')]"
    by (simp add: click_at_def pyautogui_button_def dict_get_or_def dict_get_def button_map_def
        handle_mouse_event_def move_to_xy_def quiet_env_def connected_idle_def comp_defs trace_def)
  moreover have "trace (process_message quiet_env click_message connected_idle) =
     [Print ''[*] Received command'', Print ''[!] Message processing error'']"
    by (simp add: click_message_def process_message_def dispatch_def dict_get_def has_key_def
        quiet_env_def py_print_def py_try_def py_seq_def py_emit_def py_raise_def trace_def)
  ultimately show ?thesis
    by (intro conjI)
qed

subsection \<open>The streaming loop\<close>

lemma stream_iteration_frame:
  assumes "\<not> fault t" and "grab (tick_env t) = Some img" and "img \<noteq> []"
    and "ws (self_state t)" and "\<not> cancel_at_send t"
  shows "stream_iteration t =
           ([Capture, WsSend (stream_frame_msg img)]
            @ (if send_raises (tick_env t) (stream_frame_msg img) then [Print ''[!] Send error''] else [])
            @ [Sleep (max 0 (1 / 30 - (end_time t - start_time t)))],
            \<not> cancel_at_sleep t)"
  using assms
  by (simp add: stream_iteration_def capture_screen_def capture_events_def frame_delay_def
      STREAM_FPS_def send_def py_if_def py_seq_def py_emit_def py_skip_def trace_def Let_def)

lemma stream_iteration_capture_error:
  assumes "\<not> fault t" and "grab (tick_env t) = None"
  shows "stream_iteration t =
           ([Capture, Print ''[!] Screenshot error'',
             Sleep (max 0 (1 / 30 - (end_time t - start_time t)))],
            \<not> cancel_at_sleep t)"
  using assms
  by (simp add: stream_iteration_def capture_screen_def capture_events_def frame_delay_def
      STREAM_FPS_def Let_def)

lemma stream_iteration_fault:
  assumes "fault t"
  shows "stream_iteration t = ([Print ''[!] Stream error'', Sleep 1], \<not> cancel_at_sleep t)"
  using assms by (simp add: stream_iteration_def)

lemma stream_iteration_break:
  "\<not> snd (stream_iteration t) \<Longrightarrow> cancel_at_send t \<or> cancel_at_sleep t"
  by (auto simp: stream_iteration_def Let_def split: if_splits)

lemma stream_screen_running:
  "(snd (stream_screen ts) = StillRunning) =
     (\<forall>t\<in>set ts. is_streaming (self_state t) \<and> snd (stream_iteration t))"
proof (induction ts)
  case Nil
  show ?case by simp
next
  case (Cons t ts)
  obtain es go where it: "stream_iteration t = (es, go)"
    by (cases "stream_iteration t")
  obtain es' r where rest: "stream_screen ts = (es', r)"
    by (cases "stream_screen ts")
  from Cons.IH it rest show ?case
    by (cases go) auto
qed


text \<open>
  C7, as the code has it. A pass of the streaming loop that captures a frame on a live
  connection hands it to the socket as a \<^verbatim>\<open>stream_frame\<close> message with the base64 text
  of the image, then sleeps for \<open>max 0 (1/30 - elapsed)\<close> seconds; an error of the send
  is caught inside \<^verbatim>\<open>send\<close> and changes nothing else. A pass whose capture fails sends
  nothing and sleeps for the same pacing time. Only an exception that escapes the body
  leads to the pause of one second. None of these ends the loop: over any schedule in
  which the flag stays set and no cancellation arrives the loop is still running, and a
  loop that has ended met a cleared flag or a cancellation.
\<close>

theorem stream_loop:
  "(\<not> fault t \<and> grab (tick_env t) = Some img \<and> img \<noteq> [] \<and> ws (self_state t) \<and> \<not> cancel_at_send t \<longrightarrow>
      stream_iteration t =
        ([Capture, WsSend (stream_frame_msg img)]
         @ (if send_raises (tick_env t) (stream_frame_msg img) then [Print ''[!] Send error''] else [])
         @ [Sleep (max 0 (1 / 30 - (end_time t - start_time t)))],
         \<not> cancel_at_sleep t)) \<and>
   (\<not> fault t \<and> grab (tick_env t) = None \<longrightarrow>
      stream_iteration t =
        ([Capture, Print ''[!] Screenshot error'',
          Sleep (max 0 (1 / 30 - (end_time t - start_time t)))],
         \<not> cancel_at_sleep t)) \<and>
   (fault t \<longrightarrow>
      stream_iteration t = ([Print ''[!] Stream error'', Sleep 1], \<not> cancel_at_sleep t)) \<and>
   ((\<forall>t\<in>set ts. is_streaming (self_state t) \<and> \<not> cancel_at_send t \<and> \<not> cancel_at_sleep t) \<longrightarrow>
      snd (stream_screen ts) = StillRunning) \<and>
   (snd (stream_screen ts) \<noteq> StillRunning \<longrightarrow>
      (\<exists>t\<in>set ts. \<not> is_streaming (self_state t) \<or> cancel_at_send t \<or> cancel_at_sleep t))"
proof -
  have running: "snd (stream_screen ts) = StillRunning"
    if "\<forall>t\<in>set ts. is_streaming (self_state t) \<and> \<not> cancel_at_send t \<and> \<not> cancel_at_sleep t"
    using that stream_iteration_break unfolding stream_screen_running by blast
  have left: "\<exists>t\<in>set ts. \<not> is_streaming (self_state t) \<or> cancel_at_send t \<or> cancel_at_sleep t"
    if "snd (stream_screen ts) \<noteq> StillRunning"
    using that running by blast
  show ?thesis
  proof (intro conjI impI)
    assume "\<not> fault t \<and> grab (tick_env t) = Some img \<and> img \<noteq> [] \<and> ws (self_state t) \<and>
            \<not> cancel_at_send t"
    then show "stream_iteration t =
        ([Capture, WsSend (stream_frame_msg img)]
         @ (if send_raises (tick_env t) (stream_frame_msg img) then [Print ''[!] Send error''] else [])
         @ [Sleep (max 0 (1 / 30 - (end_time t - start_time t)))],
         \<not> cancel_at_sleep t)"
      by (intro stream_iteration_frame) simp_all
  next
    assume "\<not> fault t \<and> grab (tick_env t) = None"
    then show "stream_iteration t =
        ([Capture, Print ''[!] Screenshot error'',
          Sleep (max 0 (1 / 30 - (end_time t - start_time t)))],
         \<not> cancel_at_sleep t)"
      by (intro stream_iteration_capture_error) simp_all
  next
    assume "fault t"
    then show "stream_iteration t = ([Print ''[!] Stream error'', Sleep 1], \<not> cancel_at_sleep t)"
      by (rule stream_iteration_fault)
  next
    assume "\<forall>t\<in>set ts. is_streaming (self_state t) \<and> \<not> cancel_at_send t \<and> \<not> cancel_at_sleep t"
    then show "snd (stream_screen ts) = StillRunning"
      by (rule running)
  next
    assume "snd (stream_screen ts) \<noteq> StillRunning"
    then show "\<exists>t\<in>set ts. \<not> is_streaming (self_state t) \<or> cancel_at_send t \<or> cancel_at_sleep t"
      by (rule left)
  qed
qed

text \<open>
  The theorem of C7 at a pass that sends a frame, one whose capture fails, one with
  an escaping exception, a schedule with errors only and one that ends in a cancellation.
\<close>

theorem stream_loop_witness:
  "stream_iteration good_tick =
     ([Capture, WsSend (stream_frame_msg [255, 216, 255]), Sleep (7 / 300)], True) \<and>
   stream_iteration capture_error_tick =
     ([Capture, Print ''[!] Screenshot error'', Sleep (7 / 300)], True) \<and>
   stream_iteration fault_tick = ([Print ''[!] Stream error'', Sleep 1], True) \<and>
   snd (stream_screen [good_tick, capture_error_tick, send_error_tick, fault_tick]) = StillRunning \<and>
   snd (stream_screen [good_tick, cancelled_tick]) = Cancelled \<and>
   (\<exists>t\<in>set [good_tick, cancelled_tick].
      \<not> is_streaming (self_state t) \<or> cancel_at_send t \<or> cancel_at_sleep t)"
proof -
  have ticks:
    "\<not> fault good_tick" "grab (tick_env good_tick) = Some [255, 216, 255]"
    "ws (self_state good_tick)" "\<not> cancel_at_send good_tick" "\<not> cancel_at_sleep good_tick"
    "is_streaming (self_state good_tick)"
    "\<not> send_raises (tick_env good_tick) (stream_frame_msg [255, 216, 255])"
    "end_time good_tick - start_time good_tick = 1 / 100"
    by (simp_all add: good_tick_def streaming_client_def quiet_env_def)
  have others:
    "\<not> fault capture_error_tick" "grab (tick_env capture_error_tick) = None"
    "\<not> cancel_at_sleep capture_error_tick" "\<not> cancel_at_send capture_error_tick"
    "is_streaming (self_state capture_error_tick)"
    "end_time capture_error_tick - start_time capture_error_tick = 1 / 100"
    "fault fault_tick" "\<not> cancel_at_sleep fault_tick" "\<not> cancel_at_send fault_tick"
    "is_streaming (self_state fault_tick)"
    "\<not> cancel_at_sleep send_error_tick" "\<not> cancel_at_send send_error_tick"
    "is_streaming (self_state send_error_tick)"
    "cancel_at_sleep cancelled_tick" "is_streaming (self_state cancelled_tick)"
    "\<not> fault cancelled_tick" "grab (tick_env cancelled_tick) = Some [255, 216, 255]"
    "ws (self_state cancelled_tick)" "\<not> cancel_at_send cancelled_tick"
    by (simp_all add: capture_error_tick_def fault_tick_def send_error_tick_def cancelled_tick_def
        good_tick_def streaming_client_def quiet_env_def)
  have g: "stream_iteration good_tick =
      ([Capture, WsSend (stream_frame_msg [255, 216, 255]), Sleep (7 / 300)], True)"
    using stream_loop [of good_tick "[255, 216, 255]" "[]"] ticks by simp
  have c: "stream_iteration capture_error_tick =
      ([Capture, Print ''[!] Screenshot error'', Sleep (7 / 300)], True)"
    using stream_loop [of capture_error_tick "[]" "[]"] others by simp
  have f: "stream_iteration fault_tick = ([Print ''[!] Stream error'', Sleep 1], True)"
    using stream_loop [of fault_tick "[]" "[]"] others by simp
  have r: "snd (stream_screen [good_tick, capture_error_tick, send_error_tick, fault_tick]) = StillRunning"
    using stream_loop [of good_tick "[]" "[good_tick, capture_error_tick, send_error_tick, fault_tick]"]
      ticks others by simp
  have x: "stream_iteration cancelled_tick =
      ([Capture, WsSend (stream_frame_msg [255, 216, 255])]
         @ (if send_raises (tick_env cancelled_tick) (stream_frame_msg [255, 216, 255]) then [Print ''[!] Send error''] else [])
         @ [Sleep (max 0 (1 / 30 - (end_time cancelled_tick - start_time cancelled_tick)))], False)"
    using stream_loop [of cancelled_tick "[255, 216, 255]" "[]"] others by simp
  have e: "snd (stream_screen [good_tick, cancelled_tick]) = Cancelled"
    using g x ticks others by simp
  then have "\<exists>t\<in>set [good_tick, cancelled_tick].
      \<not> is_streaming (self_state t) \<or> cancel_at_send t \<or> cancel_at_sleep t"
    using stream_loop [of good_tick "[]" "[good_tick, cancelled_tick]"] by simp
  with g c f r e show ?thesis
    by (intro conjI)
qed

text \<open>
  C7 as stated fails: after a capture error, and after a send error, the loop sleeps
  for the pacing time (here 7/300 of a second), not for a second or more.
\<close>

theorem stream_error_without_pause:
  "grab (tick_env capture_error_tick) = None \<and>
   fst (stream_iteration capture_error_tick) =
     [Capture, Print ''[!] Screenshot error'', Sleep (7 / 300)] \<and>
   send_raises (tick_env send_error_tick) (stream_frame_msg [255, 216, 255]) \<and>
   fst (stream_iteration send_error_tick) =
     [Capture, WsSend (stream_frame_msg [255, 216, 255]), Print ''[!] Send error'', Sleep (7 / 300)] \<and>
   \<not> (\<exists>d. 1 \<le> d \<and> (Sleep d \<in> set (fst (stream_iteration capture_error_tick)) \<or>
                       Sleep d \<in> set (fst (stream_iteration send_error_tick))))"
proof -
  have c: "fst (stream_iteration capture_error_tick) =
     [Capture, Print ''[!] Screenshot error'', Sleep (7 / 300)]"
    by (simp add: stream_iteration_def capture_error_tick_def good_tick_def streaming_client_def
        quiet_env_def capture_screen_def capture_events_def frame_delay_def STREAM_FPS_def)
  have s: "fst (stream_iteration send_error_tick) =
     [Capture, WsSend (stream_frame_msg [255, 216, 255]), Print ''[!] Send error'', Sleep (7 / 300)]"
    by (simp add: stream_iteration_def send_error_tick_def good_tick_def streaming_client_def
        quiet_env_def capture_screen_def capture_events_def frame_delay_def STREAM_FPS_def
        send_def py_if_def py_seq_def py_emit_def trace_def)
  show ?thesis
    unfolding c s
    by (simp add: capture_error_tick_def send_error_tick_def good_tick_def quiet_env_def)
qed

subsection \<open>The reconnect loop\<close>

lemma trace_seq:
  "raised (m c) = None \<Longrightarrow> trace (py_seq m n c) = trace (m c) @ trace (n (final (m c)))"
  by (auto simp: py_seq_def obs_defs split: prod.splits option.splits)

lemma raised_seq:
  "raised (m c) = None \<Longrightarrow> raised (py_seq m n c) = raised (n (final (m c)))"
  by (auto simp: py_seq_def obs_defs split: prod.splits option.splits)

lemma final_seq:
  "raised (m c) = None \<Longrightarrow> final (py_seq m n c) = final (n (final (m c)))"
  by (auto simp: py_seq_def obs_defs split: prod.splits option.splits)

lemma raised_process_message: "raised (process_message e data c) = None"
  unfolding process_message_def by (rule raised_try_emit)

lemma benign_skip: "benign_comp py_skip"
  by (simp add: benign_comp_def py_skip_def trace_def)

lemma benign_raise: "benign_comp (py_raise x)"
  by (simp add: benign_comp_def py_raise_def trace_def)

lemma benign_modify: "benign_comp (py_modify f)"
  by (simp add: benign_comp_def py_modify_def trace_def)

lemma benign_emit: "benign x \<Longrightarrow> benign_comp (py_emit x)"
  by (simp add: benign_comp_def py_emit_def trace_def)

lemma benign_seq: "benign_comp m \<Longrightarrow> benign_comp n \<Longrightarrow> benign_comp (py_seq m n)"
  unfolding benign_comp_def py_seq_def trace_def
  by (auto split: prod.splits option.splits) (metis fst_conv)+

lemma benign_try: "benign_comp m \<Longrightarrow> benign_comp h \<Longrightarrow> benign_comp (py_try m h)"
  unfolding benign_comp_def py_try_def trace_def
  by (auto split: prod.splits option.splits) (metis fst_conv)+

lemma benign_py_if: "benign_comp m \<Longrightarrow> benign_comp n \<Longrightarrow> benign_comp (py_if p m n)"
  by (simp add: benign_comp_def py_if_def)

lemma benign_if: "benign_comp m \<Longrightarrow> benign_comp n \<Longrightarrow> benign_comp (if b then m else n)"
  by simp

lemma benign_case_option:
  "benign_comp a \<Longrightarrow> (\<And>v. benign_comp (f v)) \<Longrightarrow> benign_comp (case opt of None \<Rightarrow> a | Some v \<Rightarrow> f v)"
  by (cases opt) simp_all

lemma benign_block_Nil: "benign_comp (py_block [])"
  by (simp add: benign_skip)

lemma benign_block_Cons: "benign_comp m \<Longrightarrow> benign_comp (py_block ms) \<Longrightarrow> benign_comp (py_block (m # ms))"
  by (simp add: benign_seq)

lemma benign_act: "benign_comp (act e a)"
  unfolding act_def by (intro benign_seq benign_if benign_raise benign_skip benign_emit) simp

lemma benign_send: "benign_comp (send e d)"
  unfolding send_def
  by (intro benign_py_if benign_seq benign_if benign_skip benign_emit) simp_all

lemma benign_send_ack: "benign_comp (send_ack e k)"
  unfolding send_ack_def by (rule benign_send)

lemma benign_capture: "benign_comp (capture e)"
  by (simp add: benign_comp_def capture_def capture_events_def trace_def split: option.splits)

lemma benign_py_print: "benign_comp (py_print e line shown)"
  unfolding py_print_def by (intro benign_if benign_raise benign_emit) simp

lemmas benign_intros =
  benign_try benign_block_Cons benign_block_Nil benign_seq benign_py_if benign_if benign_case_option
  benign_act benign_send benign_send_ack benign_capture benign_skip benign_raise benign_modify
  benign_py_print

lemma benign_screenshot: "benign_comp (handle_screenshot_request e)"
  unfolding handle_screenshot_request_def
  by (intro benign_intros benign_emit) simp_all

lemma benign_shutdown: "benign_comp (handle_shutdown e)"
  unfolding handle_shutdown_def
  by (intro benign_intros benign_emit) simp_all

lemma benign_browser: "benign_comp (handle_browser e url)"
  unfolding handle_browser_def
  by (intro benign_intros benign_emit) simp_all

lemma benign_type: "benign_comp (handle_type e text)"
  unfolding handle_type_def print_typing_def
  by (intro benign_intros benign_emit) simp_all

lemma benign_mouse: "benign_comp (handle_mouse_event e event kwargs)"
  unfolding handle_mouse_event_def move_to_xy_def
  by (intro benign_intros benign_emit) simp_all

lemma benign_keyboard: "benign_comp (handle_keyboard_event e event key code)"
  unfolding handle_keyboard_event_def
  by (intro benign_intros benign_emit) simp_all

lemma benign_start: "benign_comp (handle_start_stream e)"
  unfolding handle_start_stream_def
  by (intro benign_intros benign_emit) simp_all

lemma benign_stop: "benign_comp (handle_stop_stream e)"
  unfolding handle_stop_stream_def
  by (intro benign_intros benign_emit) simp_all

lemma benign_dispatch: "benign_comp (dispatch e msg_type m)"
  unfolding dispatch_def
  by (intro benign_if benign_raise benign_py_print benign_screenshot benign_shutdown benign_browser
      benign_type benign_mouse benign_keyboard benign_start benign_stop)

lemma benign_process_message: "benign_comp (process_message e data)"
  unfolding process_message_def
  by (cases data) (auto intro!: benign_intros benign_emit benign_dispatch)

lemma benign_compD: "benign_comp m \<Longrightarrow> m c = ((es, r), c') \<Longrightarrow> list_all benign es"
proof -
  assume b: "benign_comp m" and m: "m c = ((es, r), c')"
  from b have "list_all benign (trace (m c))"
    unfolding benign_comp_def by (rule spec)
  with m show ?thesis
    by (simp add: trace_def)
qed

lemma message_loop_ok:
  "raised (message_loop fs fin c) = None \<and> list_all benign (trace (message_loop fs fin c))"
proof (induction fs fin c rule: message_loop.induct)
  case (1 fin c)
  show ?case
    by (cases fin) (simp_all add: py_emit_def obs_defs)
next
  case (2 fs fin c)
  from "2" [of c] show ?case
    by (auto simp: py_seq_def py_emit_def obs_defs split: prod.splits option.splits)
next
  case (3 e data fs fin c)
  obtain es r c' where pm: "process_message e data c = ((es, r), c')"
    by (metis prod.collapse)
  have b: "list_all benign es"
    using benign_process_message pm by (rule benign_compD)
  have r: "r = None"
    using raised_process_message [of e data c] pm by (simp add: raised_def)
  obtain es' r' c'' where ml: "message_loop fs fin c' = ((es', r'), c'')"
    by (metis prod.collapse)
  from 3 [OF pm [symmetric, unfolded r] refl] ml
  have "r' = None \<and> list_all benign es'"
    by (simp add: obs_defs)
  with pm ml b r show ?case
    by (simp add: obs_defs)
qed

lemma benign_disconnect: "benign_comp (disconnect close_raises)"
  unfolding disconnect_def
  by (intro benign_intros benign_emit) simp_all

lemma raised_disconnect: "raised (disconnect close_raises c) = None"
  unfolding disconnect_def by (rule raised_try_emit)

lemma loop_pass_shape:
  "\<exists>bs. trace (loop_pass a c) = Connect # bs @ [Sleep RECONNECT_DELAY] \<and> list_all benign bs \<and>
        raised (loop_pass a c) = None"
proof (cases a)
  case Refused
  then show ?thesis
    by (simp add: connect_def py_try_def py_seq_def py_emit_def py_skip_def obs_defs)
next
  case (Established frames fin close_raises)
  let ?session = "py_try (py_seq (connect True) (message_loop frames fin))
                    (py_emit (Print ''[!] Critical error''))"
  obtain es c' where ml: "message_loop frames fin (c\<lparr>ws := True\<rparr>) = ((es, None), c')"
    using message_loop_ok [of frames fin "c\<lparr>ws := True\<rparr>"]
    by (metis prod.collapse raised_def)
  have bes: "list_all benign es"
    using message_loop_ok [of frames fin "c\<lparr>ws := True\<rparr>"] ml by (simp add: trace_def)
  have s: "?session c = ((Connect # Print ''[+] Connected to server'' # es, None), c')"
    using ml by (simp add: connect_def py_try_def py_seq_def py_emit_def py_modify_def)
  obtain ds c'' where d: "disconnect close_raises c' = ((ds, None), c'')"
    using raised_disconnect [of close_raises c'] by (metis prod.collapse raised_def)
  have bds: "list_all benign ds"
    using benign_disconnect d by (rule benign_compD)
  have "trace (loop_pass a c) =
      Connect # (Print ''[+] Connected to server'' # es @ ds @ [Print ''[!] Reconnecting in 5 seconds...''])
      @ [Sleep RECONNECT_DELAY]"
    and "raised (loop_pass a c) = None"
    using Established s d by (simp_all add: py_seq_def py_emit_def py_skip_def obs_defs)
  moreover have "list_all benign (Print ''[+] Connected to server'' # es @ ds @ [Print ''[!] Reconnecting in 5 seconds...''])"
    using bes bds by simp
  ultimately show ?thesis
    by blast
qed

lemma attempts_append: "attempts (xs @ ys) = attempts xs + attempts ys"
  by (simp add: attempts_def)

lemma attempts_benign: "list_all benign bs \<Longrightarrow> attempts bs = 0"
  by (induction bs) (auto simp: attempts_def)

lemma delays_benign:
  "list_all benign bs \<Longrightarrow> 0 \<le> d \<Longrightarrow> \<exists>d'. d \<le> d' \<and> delays_ok (Some d) (bs @ es) = delays_ok (Some d') es"
proof (induction bs arbitrary: d)
  case Nil
  then show ?case by auto
next
  case (Cons b bs)
  show ?case
  proof (cases b)
    case (Sleep x)
    with Cons.prems have x: "0 \<le> x" by simp
    from Cons.IH [of "d + x"] Cons.prems x obtain d' where "d + x \<le> d'"
      "delays_ok (Some (d + x)) (bs @ es) = delays_ok (Some d') es"
      by auto
    with Sleep x show ?thesis
      by (intro exI [of _ d']) simp
  next
    case Connect
    with Cons.prems show ?thesis by simp
  qed (use Cons in auto)
qed

lemma delays_benign_None:
  "list_all benign bs \<Longrightarrow> delays_ok None (bs @ es) = delays_ok None es"
proof (induction bs)
  case Nil
  show ?case by simp
next
  case (Cons b bs)
  then show ?case by (cases b) simp_all
qed

lemma run_loop_ok:
  "raised (run_loop schedule c) = None \<and>
   attempts (trace (run_loop schedule c)) = length schedule \<and>
   delays_ok None (trace (run_loop schedule c)) \<and>
   (\<forall>d. RECONNECT_DELAY \<le> d \<longrightarrow> delays_ok (Some d) (trace (run_loop schedule c)))"
proof (induction schedule arbitrary: c)
  case Nil
  show ?case by (simp add: py_skip_def obs_defs attempts_def)
next
  case (Cons a rest)
  from loop_pass_shape [of a c] obtain bs where
    t: "trace (loop_pass a c) = Connect # bs @ [Sleep RECONNECT_DELAY]" and
    b: "list_all benign bs" and r: "raised (loop_pass a c) = None"
    by blast
  let ?c = "final (loop_pass a c)"
  let ?rest = "trace (run_loop rest ?c)"
  have tr: "trace (run_loop (a # rest) c) = Connect # bs @ Sleep RECONNECT_DELAY # ?rest"
    using trace_seq [of "loop_pass a" c "run_loop rest", OF r] t by simp
  have ra: "raised (run_loop (a # rest) c) = None"
    using raised_seq [of "loop_pass a" c "run_loop rest", OF r] Cons.IH [of ?c] by simp
  have at: "attempts (trace (run_loop (a # rest) c)) = length (a # rest)"
    using Cons.IH [of ?c] attempts_benign [OF b]
    unfolding tr by (simp add: attempts_def)
  from delays_benign [OF b, of 0 "Sleep RECONNECT_DELAY # ?rest"] obtain d' where
    d': "0 \<le> d'" and
    eq: "delays_ok (Some 0) (bs @ Sleep RECONNECT_DELAY # ?rest) = delays_ok (Some d') (Sleep RECONNECT_DELAY # ?rest)"
    by auto
  have "delays_ok (Some (d' + RECONNECT_DELAY)) ?rest"
    using Cons.IH [of ?c] d' by simp
  with eq have inner: "delays_ok (Some 0) (bs @ Sleep RECONNECT_DELAY # ?rest)"
    by simp
  then have "delays_ok None (trace (run_loop (a # rest) c))"
    and "\<forall>d. RECONNECT_DELAY \<le> d \<longrightarrow> delays_ok (Some d) (trace (run_loop (a # rest) c))"
    unfolding tr by simp_all
  with ra at show ?case
    by blast
qed

lemma run_trace: "trace (run schedule c) =
    [Print ''[*] BlackLine Client starting...'', Print ''[*] Client name'', Print ''[*] Server'']
    @ trace (run_loop schedule c)"
  and run_raised: "raised (run schedule c) = raised (run_loop schedule c)"
  by (auto simp: run_def py_seq_def py_emit_def py_skip_def obs_defs split: prod.splits option.splits)

lemma refused_trace:
  "trace (run_loop (replicate n Refused) c) =
     concat (replicate n [Connect, Print ''[!] Connection failed'',
                          Print ''[!] Reconnecting in 5 seconds...'', Sleep 5])"
proof (induction n)
  case 0
  show ?case by (simp add: py_skip_def trace_def)
next
  case (Suc n)
  have p: "loop_pass Refused c =
      (([Connect, Print ''[!] Connection failed'', Print ''[!] Reconnecting in 5 seconds...'', Sleep 5], None), c)"
    by (simp add: connect_def py_try_def py_seq_def py_emit_def py_skip_def RECONNECT_DELAY_def)
  then have "raised (loop_pass Refused c) = None" and "final (loop_pass Refused c) = c"
    and "trace (loop_pass Refused c) =
      [Connect, Print ''[!] Connection failed'', Print ''[!] Reconnecting in 5 seconds...'', Sleep 5]"
    by (simp_all add: obs_defs)
  with Suc trace_seq [of "loop_pass Refused" c "run_loop (replicate n Refused)"] show ?case
    by simp
qed

text \<open>
  C8. Whatever the connection attempts meet (refusals, malformed frames, failing
  handlers, receive errors, a close that raises), \<^verbatim>\<open>run\<close> raises nothing and makes every
  scheduled attempt; after \<open>n\<close> refusals in a row it makes the next one, \<open>n + 1\<close> in
  all; between two consecutive attempts it has slept for at least \<open>RECONNECT_DELAY\<close>;
  and each refusal is followed by a sleep of exactly 5 seconds, whatever \<open>n\<close> is.
\<close>

theorem reconnect_loop:
  "raised (run schedule c) = None \<and>
   attempts (trace (run schedule c)) = length schedule \<and>
   attempts (trace (run (replicate n Refused @ [a]) c)) = n + 1 \<and>
   delays_ok None (trace (run schedule c)) \<and>
   trace (run_loop (replicate n Refused) c) =
     concat (replicate n [Connect, Print ''[!] Connection failed'',
                          Print ''[!] Reconnecting in 5 seconds...'', Sleep 5])"
proof -
  have "attempts (trace (run s c)) = length s" for s
    using run_loop_ok [of s c] by (simp add: run_trace attempts_def)
  moreover have "delays_ok None (trace (run schedule c))"
    using run_loop_ok [of schedule c] by (simp add: run_trace)
  moreover have "raised (run schedule c) = None"
    using run_loop_ok [of schedule c] by (simp add: run_raised)
  ultimately show ?thesis
    using refused_trace [of n c] by simp
qed

text \<open>The theorem of C8 at a schedule with refusals, errors and two sessions.\<close>

theorem reconnect_loop_witness:
  "attempts (trace (run rough_schedule disconnected)) = 5 \<and>
   delays_ok None (trace (run rough_schedule disconnected)) \<and>
   attempts (trace (run (replicate 3 Refused @ [Established [] ConnectionClosed False]) disconnected)) = 4"
  using reconnect_loop [of rough_schedule disconnected 3 "Established [] ConnectionClosed False"]
  by (simp add: rough_schedule_def)


section \<open>Properties of the Hub\<close>

subsection \<open>Two connections under one name\<close>

lemma find_map_name:
  "find (\<lambda>r. name r = n) (map (\<lambda>r. if id' r = i then r\<lparr>status := st, last_seen := t\<rparr> else r) rs) =
     map_option (\<lambda>r. if id' r = i then r\<lparr>status := st, last_seen := t\<rparr> else r) (find (\<lambda>r. name r = n) rs)"
  by (induction rs) auto

lemma find_append_last:
  "find P (xs @ [x]) = (case find P xs of Some y \<Rightarrow> Some y | None \<Rightarrow> if P x then Some x else None)"
  by (induction xs) auto

lemma get_or_create_findable:
  assumes "get_or_create_client n t d = (client, d')"
  shows "find (\<lambda>r. name r = n) (rows d') = Some client"
  using assms
  by (auto simp: get_or_create_client_def Let_def find_append_last split: option.splits)

lemma get_or_create_again:
  assumes "get_or_create_client n t d = (client, d')"
  shows "get_or_create_client n t2 (update_client_status (id' client) st t1 d') =
           (client\<lparr>status := st, last_seen := Some t1\<rparr>, update_client_status (id' client) st t1 d')"
  using get_or_create_findable [OF assms]
  by (simp add: get_or_create_client_def update_client_status_def find_map_name)

lemma accept_result:
  assumes "get_or_create_client client_name now (db h) = (client, d)"
  shows "endpoint_accept w client_name now h =
           (id' client,
            h\<lparr>active_connections := (active_connections h)(id' client \<mapsto> w),
              name_to_id := (name_to_id h)(client_name \<mapsto> id' client),
              db := update_client_status (id' client) ONLINE now d\<rparr>,
            [Accept w, HubPrint ''[+] Client connected''])"
  by (simp add: endpoint_accept_def manager_connect_def assms)

lemma accept_twice:
  assumes a1: "endpoint_accept w1 client_name t1 h = (i1, h1, es1)"
    and a2: "endpoint_accept w2 client_name t2 h1 = (i2, h2, es2)"
  shows "i2 = i1"
    and "active_connections h2 = (active_connections h)(i1 \<mapsto> w2)"
    and "name_to_id h2 = (name_to_id h)(client_name \<mapsto> i1)"
proof -
  obtain client d where g: "get_or_create_client client_name t1 (db h) = (client, d)"
    by (cases "get_or_create_client client_name t1 (db h)")
  from a1 have i1: "i1 = id' client"
    and h1: "h1 = h\<lparr>active_connections := (active_connections h)(id' client \<mapsto> w1),
                     name_to_id := (name_to_id h)(client_name \<mapsto> id' client),
                     db := update_client_status (id' client) ONLINE t1 d\<rparr>"
    unfolding accept_result [OF g] by auto
  have "get_or_create_client client_name t2 (db h1) =
          (client\<lparr>status := ONLINE, last_seen := Some t1\<rparr>, update_client_status (id' client) ONLINE t1 d)"
    unfolding h1 using get_or_create_again [OF g, of t2 ONLINE t1] by simp
  from a2 [unfolded accept_result [OF this]]
  have i2: "i2 = id' client"
    and h2: "h2 = h1\<lparr>active_connections := (active_connections h1)(id' client \<mapsto> w2),
                     name_to_id := (name_to_id h1)(client_name \<mapsto> id' client),
                     db := update_client_status (id' client) ONLINE t2 (update_client_status (id' client) ONLINE t1 d)\<rparr>"
    by auto
  show "i2 = i1"
    by (simp add: i1 i2)
  show "active_connections h2 = (active_connections h)(i1 \<mapsto> w2)"
    by (simp add: h2 h1 i1)
  show "name_to_id h2 = (name_to_id h)(client_name \<mapsto> i1)"
    by (simp add: h2 h1 i1)
qed

lemma disconnect_fields:
  "active_connections (fst (endpoint_disconnect i t h)) = (active_connections h)(i := None)"
  "name_to_id (fst (endpoint_disconnect i t h)) n = (if name_to_id h n = Some i then None else name_to_id h n)"
  "db (fst (endpoint_disconnect i t h)) = update_client_status i OFFLINE t (db h)"
  "screenshot_pending (fst (endpoint_disconnect i t h)) = screenshot_pending h"
  "futures (fst (endpoint_disconnect i t h)) = futures h"
  "next_future (fst (endpoint_disconnect i t h)) = next_future h"
  by (simp_all add: endpoint_disconnect_def manager_disconnect_def)

lemma rows_update_status:
  "list_all (\<lambda>r. id' r = i \<longrightarrow> status r = st) (rows (update_client_status i st t d))"
proof -
  have "list_all (\<lambda>r. id' r = i \<longrightarrow> status r = st)
          (map (\<lambda>r. if id' r = i then r\<lparr>status := st, last_seen := Some t\<rparr> else r) rs)" for rs
    by (induction rs) simp_all
  then show ?thesis
    by (simp add: update_client_status_def)
qed

text \<open>
  C2, as the code has it. When the Hub accepts two connections under the same agent name,
  both get the same client id, and the routing table then differs from the one before in
  a single entry, under that id, which points at the second channel; the name maps to
  that id. The close of the first channel removes that entry, although it now belongs to
  the second channel: \<^verbatim>\<open>disconnect\<close> goes by the client id alone. It also removes the
  name's entry and marks the directory record offline.
\<close>

theorem second_connection_supersedes:
  assumes "endpoint_accept w1 client_name t1 h = (i1, h1, es1)"
    and "endpoint_accept w2 client_name t2 h1 = (i2, h2, es2)"
    and "endpoint_disconnect i1 t3 h2 = (h3, es3)"
  shows "i2 = i1 \<and>
         active_connections h2 = (active_connections h)(i1 \<mapsto> w2) \<and>
         name_to_id h2 = (name_to_id h)(client_name \<mapsto> i1) \<and>
         active_connections h3 i1 = None \<and>
         name_to_id h3 client_name = None \<and>
         list_all (\<lambda>r. id' r = i1 \<longrightarrow> status r = OFFLINE) (rows (db h3))"
proof -
  note two = accept_twice [OF assms(1,2)]
  from assms(3) have h3: "h3 = fst (endpoint_disconnect i1 t3 h2)"
    by simp
  have "active_connections h3 i1 = None"
    by (simp add: h3 disconnect_fields)
  moreover have "name_to_id h3 client_name = None"
    by (simp add: h3 disconnect_fields two(3))
  moreover have "list_all (\<lambda>r. id' r = i1 \<longrightarrow> status r = OFFLINE) (rows (db h3))"
    unfolding h3 disconnect_fields by (rule rows_update_status)
  ultimately show ?thesis
    using two by (intro conjI)
qed

text \<open>
  C2 as stated fails: after \<^verbatim>\<open>desk-1\<close> has connected on channel 1 and again on channel
  2, the route points at channel 2, and the close of channel 1 removes it.
\<close>

theorem stale_close_removes_route:
  "active_connections twice_connected 1 = Some 2 \<and>
   active_connections (fst (endpoint_disconnect 1 30 twice_connected)) 1 = None"
  by (simp add: disconnect_fields twice_connected_def once_connected_def endpoint_accept_def
      manager_connect_def get_or_create_client_def update_client_status_def fresh_hub_def
      empty_db_def Let_def)

text \<open>The theorem of C2 at a Hub that starts empty and accepts \<^verbatim>\<open>desk-1\<close> twice.\<close>

theorem second_connection_supersedes_witness:
  "active_connections twice_connected = [1 \<mapsto> 2] \<and>
   name_to_id twice_connected = [''desk-1'' \<mapsto> 1] \<and>
   active_connections (fst (endpoint_disconnect 1 30 twice_connected)) 1 = None \<and>
   name_to_id (fst (endpoint_disconnect 1 30 twice_connected)) ''desk-1'' = None"
proof -
  have a1: "endpoint_accept 1 ''desk-1'' 10 (fresh_hub empty_db) =
      (1, once_connected, [Accept 1, HubPrint ''[+] Client connected''])"
    by (simp add: once_connected_def endpoint_accept_def manager_connect_def
        get_or_create_client_def empty_db_def fresh_hub_def Let_def)
  have a2: "endpoint_accept 2 ''desk-1'' 20 once_connected =
      (fst (endpoint_accept 2 ''desk-1'' 20 once_connected), twice_connected,
       snd (snd (endpoint_accept 2 ''desk-1'' 20 once_connected)))"
    by (simp add: twice_connected_def)
  have d: "endpoint_disconnect 1 30 twice_connected =
      (fst (endpoint_disconnect 1 30 twice_connected), snd (endpoint_disconnect 1 30 twice_connected))"
    by simp
  from second_connection_supersedes [OF a1 a2 d] show ?thesis
    by (simp add: fresh_hub_def)
qed


subsection \<open>The fields of the state after a step\<close>

lemma accept_fields:
  "screenshot_pending (fst (snd (endpoint_accept w n t h))) = screenshot_pending h"
  "futures (fst (snd (endpoint_accept w n t h))) = futures h"
  "next_future (fst (snd (endpoint_accept w n t h))) = next_future h"
  by (simp_all add: endpoint_accept_def manager_connect_def split: prod.splits)

lemma error_fields:
  "active_connections (fst (endpoint_error i t h)) = (active_connections h)(i := None)"
  "db (fst (endpoint_error i t h)) = update_client_status i OFFLINE t (db h)"
  "screenshot_pending (fst (endpoint_error i t h)) = screenshot_pending h"
  "futures (fst (endpoint_error i t h)) = futures h"
  "next_future (fst (endpoint_error i t h)) = next_future h"
  by (simp_all add: endpoint_error_def disconnect_fields split_def Let_def)

lemma receive_fields:
  "screenshot_pending (fst (snd (endpoint_receive client_id data now h))) = screenshot_pending h"
  "next_future (fst (snd (endpoint_receive client_id data now h))) = next_future h"
  by (simp_all add: endpoint_receive_def error_fields split_def Let_def
      split: option.splits json.splits)

lemma receive_futures:
  "screenshot_pending h client_id \<noteq> Some f \<Longrightarrow>
     futures (fst (snd (endpoint_receive client_id data now h))) f = futures h f"
  by (simp add: endpoint_receive_def error_fields split_def Let_def
      split: option.splits json.splits)


lemma begin_fields:
  "active_connections (fst (snd (send_screenshot_begin E client_id chat_id h))) = active_connections h"
  "db (fst (snd (send_screenshot_begin E client_id chat_id h))) = db h"
  by (simp_all add: send_screenshot_begin_def call_bot_def Let_def split_def)

lemma begin_connected:
  assumes "active_connections h client_id \<noteq> None"
  shows "fst (send_screenshot_begin E client_id chat_id h) = Waiting (next_future h)"
    and "screenshot_pending (fst (snd (send_screenshot_begin E client_id chat_id h))) =
           (screenshot_pending h)(client_id \<mapsto> next_future h)"
    and "futures (fst (snd (send_screenshot_begin E client_id chat_id h))) =
           (futures h)(next_future h := Pending)"
    and "next_future (fst (snd (send_screenshot_begin E client_id chat_id h))) = Suc (next_future h)"
proof -
  from assms obtain w where w: "active_connections h client_id = Some w"
    by blast
  show "fst (send_screenshot_begin E client_id chat_id h) = Waiting (next_future h)"
    and "screenshot_pending (fst (snd (send_screenshot_begin E client_id chat_id h))) =
           (screenshot_pending h)(client_id \<mapsto> next_future h)"
    and "futures (fst (snd (send_screenshot_begin E client_id chat_id h))) =
           (futures h)(next_future h := Pending)"
    and "next_future (fst (snd (send_screenshot_begin E client_id chat_id h))) = Suc (next_future h)"
    by (simp_all add: send_screenshot_begin_def w Let_def split_def)
qed

lemma begin_offline:
  assumes "active_connections h client_id = None"
  shows "fst (snd (send_screenshot_begin E client_id chat_id h)) = h"
  using assms
  by (simp add: send_screenshot_begin_def call_bot_def)

lemma clear_pending_fields:
  "screenshot_pending (clear_pending client_id h) = (screenshot_pending h)(client_id := None)"
  "futures (clear_pending client_id h) = futures h"
  "next_future (clear_pending client_id h) = next_future h"
  "active_connections (clear_pending client_id h) = active_connections h"
  "db (clear_pending client_id h) = db h"
  by (auto simp: clear_pending_def)

lemma wake_state:
  "snd (send_screenshot_wake E fut client_id h) =
     (case futures h fut of
        Pending \<Rightarrow> h\<lparr>futures := (futures h)(fut := CancelledFuture)\<rparr>
      | Done v \<Rightarrow> h
      | CancelledFuture \<Rightarrow> clear_pending client_id h)"
  by (simp add: send_screenshot_wake_def split: future.splits json.splits option.splits)

lemma wake_fields:
  "screenshot_pending (snd (send_screenshot_wake E fut client_id h)) =
     (if futures h fut = CancelledFuture then (screenshot_pending h)(client_id := None)
      else screenshot_pending h)"
  "next_future (snd (send_screenshot_wake E fut client_id h)) = next_future h"
  "active_connections (snd (send_screenshot_wake E fut client_id h)) = active_connections h"
  "db (snd (send_screenshot_wake E fut client_id h)) = db h"
  "futures (snd (send_screenshot_wake E fut client_id h)) =
     (if futures h fut = Pending then (futures h)(fut := CancelledFuture) else futures h)"
  by (cases "futures h fut"; simp add: wake_state clear_pending_fields)+

lemma wake_timeout:
  assumes "futures h fut = Pending"
  shows "send_screenshot_wake E fut client_id h =
           (AwaitMessage (TimeoutText client_id),
            h\<lparr>futures := (futures h)(fut := CancelledFuture)\<rparr>)"
  using assms by (simp add: send_screenshot_wake_def)

lemma wake_ended:
  assumes "fst (send_screenshot_wake E fut client_id h) = Ended r"
  shows "futures h fut = CancelledFuture"
  using assms
  by (cases "futures h fut")
    (simp_all add: send_screenshot_wake_def split: json.splits option.splits)

lemma photo_sent_state:
  "fst (snd (photo_sent E chat_id image_bytes client_id h)) =
     (if bot_fails E (SendPhoto chat_id image_bytes client_id) then h
      else clear_pending client_id h)"
  "fst (photo_sent E chat_id image_bytes client_id h) =
     (\<not> bot_fails E (SendPhoto chat_id image_bytes client_id))"
  by (simp_all add: photo_sent_def call_bot_def)

lemma photo_sent_fields:
  "screenshot_pending (fst (snd (photo_sent E chat_id image_bytes client_id h))) =
     (if bot_fails E (SendPhoto chat_id image_bytes client_id) then screenshot_pending h
      else (screenshot_pending h)(client_id := None))"
  "next_future (fst (snd (photo_sent E chat_id image_bytes client_id h))) = next_future h"
  "active_connections (fst (snd (photo_sent E chat_id image_bytes client_id h))) =
     active_connections h"
  "db (fst (snd (photo_sent E chat_id image_bytes client_id h))) = db h"
  "futures (fst (snd (photo_sent E chat_id image_bytes client_id h))) = futures h"
  by (simp_all add: photo_sent_state clear_pending_fields)

lemma message_sent_result:
  "message_sent E chat_id text client_id h =
     (if bot_fails E (SendMessage chat_id text) then Inl BotError else Inr False,
      clear_pending client_id h,
      [Bot (SendMessage chat_id text)])"
  by (simp add: message_sent_def call_bot_def)

lemma message_sent_fields:
  "screenshot_pending (fst (snd (message_sent E chat_id text client_id h))) =
     (screenshot_pending h)(client_id := None)"
  "next_future (fst (snd (message_sent E chat_id text client_id h))) = next_future h"
  "active_connections (fst (snd (message_sent E chat_id text client_id h))) =
     active_connections h"
  "db (fst (snd (message_sent E chat_id text client_id h))) = db h"
  "futures (fst (snd (message_sent E chat_id text client_id h))) = futures h"
  by (simp_all add: message_sent_result clear_pending_fields)

lemma end_message:
  "send_screenshot_end E client_id chat_id meanwhile (AwaitMessage text) h =
     message_sent E chat_id text client_id (meanwhile 1 h)"
  by (simp add: send_screenshot_end_def)

lemma end_cleared:
  assumes "\<And>r. w \<noteq> Ended r"
  shows "screenshot_pending
           (fst (snd (send_screenshot_end E client_id chat_id meanwhile w h))) client_id = None"
proof (cases w)
  case (AwaitPhoto image_bytes)
  show ?thesis
  proof (cases "bot_fails E (SendPhoto chat_id image_bytes client_id)")
    case True
    then show ?thesis
      by (simp add: AwaitPhoto send_screenshot_end_def split_def photo_sent_state
          message_sent_fields)
  next
    case False
    then show ?thesis
      by (simp add: AwaitPhoto send_screenshot_end_def split_def photo_sent_state
          clear_pending_fields)
  qed
next
  case (AwaitMessage msg)
  then show ?thesis
    by (simp add: end_message message_sent_fields)
next
  case (Ended r)
  with assms [of r] show ?thesis
    by simp
qed

lemma end_after_wake_cleared:
  "screenshot_pending
     (fst (snd (send_screenshot_end E client_id chat_id meanwhile
                  (fst (send_screenshot_wake E fut client_id h))
                  (snd (send_screenshot_wake E fut client_id h))))) client_id = None"
proof (cases "\<exists>r. fst (send_screenshot_wake E fut client_id h) = Ended r")
  case True
  then obtain r where r: "fst (send_screenshot_wake E fut client_id h) = Ended r"
    by blast
  then have "futures h fut = CancelledFuture"
    by (rule wake_ended)
  then show ?thesis
    by (simp add: r send_screenshot_end_def wake_fields)
next
  case False
  then have "fst (send_screenshot_wake E fut client_id h) \<noteq> Ended r" for r
    by blast
  then show ?thesis
    by (rule end_cleared)
qed

lemma resume_state:
  "fst (snd (send_screenshot_resume E fut client_id chat_id h)) =
     clear_pending client_id
       (if futures h fut = Pending then h\<lparr>futures := (futures h)(fut := CancelledFuture)\<rparr> else h)"
proof (cases "futures h fut")
  case Pending
  then show ?thesis
    by (simp add: send_screenshot_resume_def wake_timeout end_message message_sent_result)
next
  case (Done v)
  from Done show ?thesis
    by (simp add: send_screenshot_resume_def send_screenshot_wake_def send_screenshot_end_def
        photo_sent_def message_sent_def call_bot_def split_def
        split: json.splits option.splits)
next
  case CancelledFuture
  from CancelledFuture show ?thesis
    by (simp add: send_screenshot_resume_def send_screenshot_wake_def send_screenshot_end_def)
qed

lemma resume_fields:
  "screenshot_pending (fst (snd (send_screenshot_resume E fut client_id chat_id h))) =
     (screenshot_pending h)(client_id := None)"
  "next_future (fst (snd (send_screenshot_resume E fut client_id chat_id h))) = next_future h"
  "active_connections (fst (snd (send_screenshot_resume E fut client_id chat_id h))) = active_connections h"
  "db (fst (snd (send_screenshot_resume E fut client_id chat_id h))) = db h"
  "futures (fst (snd (send_screenshot_resume E fut client_id chat_id h))) =
     (if futures h fut = Pending then (futures h)(fut := CancelledFuture) else futures h)"
  by (simp_all add: resume_state clear_pending_fields)

lemma resume_timeout:
  assumes "futures h fut = Pending"
  shows "send_screenshot_resume E fut client_id chat_id h =
           (if bot_fails E (SendMessage chat_id (TimeoutText client_id)) then Inl BotError else Inr False,
            clear_pending client_id (h\<lparr>futures := (futures h)(fut := CancelledFuture)\<rparr>),
            [Bot (SendMessage chat_id (TimeoutText client_id))])"
  using assms
  by (simp add: send_screenshot_resume_def wake_timeout end_message message_sent_result)

text \<open>
  The end of a request taken in one step is the end taken in its parts, when no other
  coroutine runs in between.
\<close>

lemma resume_in_parts:
  "send_screenshot_resume E fut client_id chat_id h =
     send_screenshot_end E client_id chat_id (\<lambda>n h. h)
       (fst (send_screenshot_wake E fut client_id h))
       (snd (send_screenshot_wake E fut client_id h))"
  by (simp add: send_screenshot_resume_def split_def)

subsection \<open>Screenshot requests\<close>

lemma bot_calls_append: "bot_calls (xs @ ys) = bot_calls xs @ bot_calls ys"
  by (induction xs rule: bot_calls.induct) simp_all

lemma begin_no_bot:
  assumes "active_connections h client_id \<noteq> None"
  shows "bot_calls (snd (snd (send_screenshot_begin E client_id chat_id h))) = []"
proof -
  from assms obtain w where w: "active_connections h client_id = Some w"
    by blast
  show ?thesis
    by (simp add: send_screenshot_begin_def send_to_client_def w Let_def split_def)
qed

lemma send_screenshot_connected:
  assumes "active_connections h client_id \<noteq> None"
  shows "send_screenshot E client_id chat_id meanwhile h =
           (let h1 = fst (snd (send_screenshot_begin E client_id chat_id h));
                es = snd (snd (send_screenshot_begin E client_id chat_id h));
                wk = send_screenshot_wake E (next_future h) client_id (meanwhile 0 h1);
                r = send_screenshot_end E client_id chat_id meanwhile (fst wk) (snd wk)
            in (fst r, fst (snd r), es @ snd (snd r)))"
  by (simp add: send_screenshot_def Let_def split_def begin_connected(1) [OF assms])

lemma send_screenshot_timed_out:
  assumes "active_connections h client_id \<noteq> None"
    and "futures (meanwhile 0 (fst (snd (send_screenshot_begin E client_id chat_id h))))
           (next_future h) = Pending"
  shows "bot_calls (snd (snd (send_screenshot E client_id chat_id meanwhile h))) =
           [SendMessage chat_id (TimeoutText client_id)]"
    and "fst (send_screenshot E client_id chat_id meanwhile h) =
           (if bot_fails E (SendMessage chat_id (TimeoutText client_id)) then Inl BotError
            else Inr False)"
  using begin_no_bot [OF assms(1), of E chat_id]
  by (simp_all add: send_screenshot_connected [OF assms(1)] Let_def wake_timeout [OF assms(2)]
      end_message message_sent_result bot_calls_append)

text \<open>
  C3 as stated fails: when the agent never replies and the bot's call for the timeout
  text raises, the caller is sent nothing and the call ends with that exception.
\<close>

theorem timeout_report_can_raise:
  "active_connections once_connected 1 = Some 1 \<and>
   bot_calls (snd (snd (send_screenshot bot_down_env 1 77 (\<lambda>n h. h) once_connected))) =
     [SendMessage 77 (TimeoutText 1)] \<and>
   bot_fails bot_down_env (SendMessage 77 (TimeoutText 1)) \<and>
   fst (send_screenshot bot_down_env 1 77 (\<lambda>n h. h) once_connected) = Inl BotError"
proof -
  have c: "active_connections once_connected 1 = Some 1"
    by (simp add: once_connected_def endpoint_accept_def manager_connect_def
        get_or_create_client_def update_client_status_def fresh_hub_def empty_db_def Let_def)
  then have conn: "active_connections once_connected 1 \<noteq> None"
    by simp
  have pend: "futures (fst (snd (send_screenshot_begin bot_down_env 1 77 once_connected)))
      (next_future once_connected) = Pending"
    by (simp add: begin_connected [OF conn])
  have down: "bot_fails bot_down_env call" for call
    by (simp add: bot_down_env_def)
  from send_screenshot_timed_out [of once_connected 1 "\<lambda>n h. h" bot_down_env 77, OF conn pend] c
  show ?thesis
    by (simp add: down)
qed

text \<open>
  C3, as the code has it. For a screenshot request issued for a connected agent,
  whatever the other coroutines do while the caller waits and during its calls of the
  bot, and however the call ends (photo sent, timeout, error, or an exception of the
  bot), the entry of that agent is gone from \<^verbatim>\<open>screenshot_pending\<close> when the call is
  over. If the request's future is still pending when the 10 seconds have passed, the
  one call of the bot is for the timeout text, not the offline text; when that call
  returns, \<^verbatim>\<open>send_screenshot\<close> returns \<^verbatim>\<open>False\<close>, and when it raises, its exception
  leaves \<^verbatim>\<open>send_screenshot\<close>.
\<close>

theorem screenshot_timeout:
  assumes "active_connections h client_id \<noteq> None"
  shows "screenshot_pending (fst (snd (send_screenshot E client_id chat_id meanwhile h))) client_id = None \<and>
         (futures (meanwhile 0 (fst (snd (send_screenshot_begin E client_id chat_id h)))) (next_future h) = Pending \<longrightarrow>
            bot_calls (snd (snd (send_screenshot E client_id chat_id meanwhile h))) =
              [SendMessage chat_id (TimeoutText client_id)] \<and>
            fst (send_screenshot E client_id chat_id meanwhile h) =
              (if bot_fails E (SendMessage chat_id (TimeoutText client_id)) then Inl BotError
               else Inr False))"
proof (intro conjI impI)
  show "screenshot_pending (fst (snd (send_screenshot E client_id chat_id meanwhile h))) client_id = None"
    by (simp add: send_screenshot_connected [OF assms] Let_def end_after_wake_cleared)
next
  assume "futures (meanwhile 0 (fst (snd (send_screenshot_begin E client_id chat_id h)))) (next_future h) = Pending"
  with assms show "bot_calls (snd (snd (send_screenshot E client_id chat_id meanwhile h))) =
      [SendMessage chat_id (TimeoutText client_id)]"
    by (rule send_screenshot_timed_out)
next
  assume "futures (meanwhile 0 (fst (snd (send_screenshot_begin E client_id chat_id h)))) (next_future h) = Pending"
  with assms show "fst (send_screenshot E client_id chat_id meanwhile h) =
      (if bot_fails E (SendMessage chat_id (TimeoutText client_id)) then Inl BotError
       else Inr False)"
    by (rule send_screenshot_timed_out)
qed

text \<open>
  The theorem of C3 at a Hub with one connected agent that never replies and a bot whose
  calls return.
\<close>

theorem screenshot_timeout_witness:
  "bot_calls (snd (snd (send_screenshot quiet_hub_env 1 77 (\<lambda>n h. h) once_connected))) =
     [SendMessage 77 (TimeoutText 1)] \<and>
   fst (send_screenshot quiet_hub_env 1 77 (\<lambda>n h. h) once_connected) = Inr False \<and>
   screenshot_pending (fst (snd (send_screenshot quiet_hub_env 1 77 (\<lambda>n h. h) once_connected))) 1 = None"
proof -
  have c: "active_connections once_connected 1 = Some 1"
    by (simp add: once_connected_def endpoint_accept_def manager_connect_def
        get_or_create_client_def update_client_status_def fresh_hub_def empty_db_def Let_def)
  then have conn: "active_connections once_connected 1 \<noteq> None"
    by simp
  have pend: "futures (fst (snd (send_screenshot_begin quiet_hub_env 1 77 once_connected)))
      (next_future once_connected) = Pending"
    by (simp add: begin_connected [OF conn])
  from screenshot_timeout [OF conn, of quiet_hub_env 77 "\<lambda>n h. h"] pend
  show ?thesis
    by (simp add: quiet_hub_env_def)
qed

text \<open>
  While the timeout text is on its way the cancelled future is still in
  \<^verbatim>\<open>screenshot_pending\<close>: a reply of the agent that arrives then calls \<^verbatim>\<open>set_result\<close>
  on it, which raises, and the endpoint's \<^verbatim>\<open>except Exception\<close> clause ends the agent's
  connection.
\<close>

lemma late_reply_disconnects:
  assumes "screenshot_pending h client_id = Some fut" and "futures h fut = Pending"
    and "dict_get message ''type'' = JStr ''screenshot''" and "has_key message ''image''"
  shows "fst (send_screenshot_wake E fut client_id h) = AwaitMessage (TimeoutText client_id)"
    and "screenshot_pending (snd (send_screenshot_wake E fut client_id h)) client_id = Some fut"
    and "fst (endpoint_receive client_id (Some (JObj message)) now
               (snd (send_screenshot_wake E fut client_id h))) = False"
    and "active_connections
           (fst (snd (endpoint_receive client_id (Some (JObj message)) now
                        (snd (send_screenshot_wake E fut client_id h))))) client_id = None"
proof -
  let ?h = "snd (send_screenshot_wake E fut client_id h)"
  show "fst (send_screenshot_wake E fut client_id h) = AwaitMessage (TimeoutText client_id)"
    by (simp add: wake_timeout [OF assms(2)])
  have p: "screenshot_pending ?h client_id = Some fut"
    by (simp add: wake_fields assms(1,2))
  then show "screenshot_pending ?h client_id = Some fut" .
  have f: "futures ?h fut = CancelledFuture"
    by (simp add: wake_fields assms(2))
  have r: "endpoint_receive client_id (Some (JObj message)) now ?h =
      (False, fst (endpoint_error client_id now ?h), snd (endpoint_error client_id now ?h))"
    by (simp add: endpoint_receive_def assms(3,4) p f split_def)
  show "fst (endpoint_receive client_id (Some (JObj message)) now ?h) = False"
    by (simp add: r)
  show "active_connections (fst (snd (endpoint_receive client_id (Some (JObj message)) now ?h)))
      client_id = None"
    by (simp add: r error_fields)
qed


subsection \<open>Overlapping screenshot requests\<close>

lemma orphaned_step:
  assumes "orphaned f h" and "not_resume_of f s"
  shows "orphaned f (apply_step E s h)"
proof (cases s)
  case (StepAccept w client_name now)
  with assms(1) show ?thesis
    by (simp add: orphaned_def accept_fields)
next
  case (StepReceive client_id data now)
  from assms(1) have "screenshot_pending h client_id \<noteq> Some f"
    by (simp add: orphaned_def)
  from receive_futures [OF this, of data now] assms(1) StepReceive show ?thesis
    by (simp add: orphaned_def receive_fields)
next
  case (StepDisconnect client_id now)
  with assms(1) show ?thesis
    by (simp add: orphaned_def disconnect_fields)
next
  case (StepBegin client_id chat_id)
  show ?thesis
  proof (cases "active_connections h client_id = None")
    case True
    with assms(1) StepBegin show ?thesis
      by (simp add: begin_offline)
  next
    case False
    with assms(1) StepBegin show ?thesis
      by (auto simp: orphaned_def begin_connected)
  qed
next
  case (StepResume f' client_id chat_id)
  with assms(2) have "f' \<noteq> f"
    by simp
  with assms(1) StepResume show ?thesis
    by (simp add: orphaned_def resume_fields)
next
  case (StepWake f' client_id)
  with assms(2) have "f' \<noteq> f"
    by simp
  with assms(1) StepWake show ?thesis
    by (simp add: orphaned_def wake_fields)
next
  case (StepPhotoSent chat_id image_bytes client_id)
  with assms(1) show ?thesis
    by (simp add: orphaned_def photo_sent_fields)
next
  case (StepMessageSent chat_id msg client_id)
  with assms(1) show ?thesis
    by (simp add: orphaned_def message_sent_fields)
qed

lemma orphaned_steps:
  assumes "orphaned f h" and "list_all (not_resume_of f) steps"
  shows "orphaned f (apply_steps E steps h)"
  using assms
proof (induction steps arbitrary: h)
  case Nil
  then show ?case by simp
next
  case (Cons s steps)
  then show ?case
    by (simp add: orphaned_step)
qed

lemma overwritten_is_orphaned:
  assumes conn: "active_connections h client_id \<noteq> None"
    and wf: "\<forall>k f. screenshot_pending h k = Some f \<longrightarrow> f < next_future h"
  shows "orphaned (next_future h)
           (fst (snd (send_screenshot_begin E client_id chat2
              (fst (snd (send_screenshot_begin E client_id chat1 h))))))"
proof -
  let ?h1 = "fst (snd (send_screenshot_begin E client_id chat1 h))"
  have conn1: "active_connections ?h1 client_id \<noteq> None"
    using conn by (simp add: begin_fields)
  note b1 = begin_connected [OF conn, of E chat1]
  note b2 = begin_connected [OF conn1, of E chat2]
  have "screenshot_pending h k \<noteq> Some (next_future h)" for k
    using wf by (metis less_irrefl)
  then show ?thesis
    by (simp add: orphaned_def b1 b2)
qed

lemma pending_created_step:
  assumes "pending_created h"
  shows "pending_created (apply_step E s h)"
proof (cases s)
  case (StepAccept w client_name now)
  with assms show ?thesis
    by (simp add: pending_created_def accept_fields)
next
  case (StepReceive client_id data now)
  with assms show ?thesis
    by (simp add: pending_created_def receive_fields)
next
  case (StepDisconnect client_id now)
  with assms show ?thesis
    by (simp add: pending_created_def disconnect_fields)
next
  case (StepBegin client_id chat_id)
  show ?thesis
  proof (cases "active_connections h client_id = None")
    case True
    with assms StepBegin show ?thesis
      by (simp add: begin_offline)
  next
    case False
    with assms StepBegin show ?thesis
      by (auto simp: pending_created_def begin_connected less_Suc_eq)
  qed
next
  case (StepResume fut client_id chat_id)
  with assms show ?thesis
    by (simp add: pending_created_def resume_fields)
next
  case (StepWake fut client_id)
  with assms show ?thesis
    by (simp add: pending_created_def wake_fields)
next
  case (StepPhotoSent chat_id image_bytes client_id)
  with assms show ?thesis
    by (simp add: pending_created_def photo_sent_fields)
next
  case (StepMessageSent chat_id msg client_id)
  with assms show ?thesis
    by (simp add: pending_created_def message_sent_fields)
qed

lemma pending_created_steps:
  "pending_created (apply_steps E steps (fresh_hub d))"
proof -
  have "pending_created h \<Longrightarrow> pending_created (apply_steps E steps h)" for h
    by (induction steps arbitrary: h) (simp_all add: pending_created_step)
  moreover have "pending_created (fresh_hub d)"
    by (simp add: pending_created_def fresh_hub_def)
  ultimately show ?thesis
    by blast
qed

text \<open>
  C10. When a second screenshot request is issued for a connected agent while the first
  is waiting (in a state where the futures in the table are ones created earlier, as in
  every state the Hub reaches), both callers wait, each on a future of its own, and the agent's entry of
  \<^verbatim>\<open>screenshot_pending\<close>, which held the first future, now holds the second. From then
  on, whatever the Hub does short of waking the first caller (replies from any agent,
  connections, closes, other requests and their ends), the first future stays pending,
  so the first caller ends in the timeout branch. The end of either call, at any state,
  removes the agent's entry; once the first call has ended that way, a reply of the agent
  leaves the second future pending too.
\<close>

theorem overlapping_screenshot_requests:
  assumes "active_connections h client_id \<noteq> None"
    and "pending_created h"
    and "h1 = fst (snd (send_screenshot_begin E client_id chat1 h))"
    and "h2 = fst (snd (send_screenshot_begin E client_id chat2 h1))"
    and "list_all (not_resume_of (next_future h)) steps"
  shows "fst (send_screenshot_begin E client_id chat1 h) = Waiting (next_future h) \<and>
         fst (send_screenshot_begin E client_id chat2 h1) = Waiting (Suc (next_future h)) \<and>
         screenshot_pending h1 client_id = Some (next_future h) \<and>
         screenshot_pending h2 client_id = Some (Suc (next_future h)) \<and>
         futures (apply_steps E steps h2) (next_future h) = Pending \<and>
         fst (send_screenshot_resume E (next_future h) client_id chat1 (apply_steps E steps h2)) =
           (if bot_fails E (SendMessage chat1 (TimeoutText client_id)) then Inl BotError else Inr False) \<and>
         screenshot_pending (fst (snd (send_screenshot_resume E fut client_id chat h'))) client_id = None \<and>
         futures (fst (snd (endpoint_receive client_id data now
                    (fst (snd (send_screenshot_resume E (next_future h) client_id chat1 h2))))))
           (Suc (next_future h)) = Pending"
proof -
  have conn1: "active_connections h1 client_id \<noteq> None"
    using assms(1) by (simp add: assms(3) begin_fields)
  note b1 = begin_connected [OF assms(1), of E chat1, folded assms(3)]
  note b2 = begin_connected [OF conn1, of E chat2, folded assms(4)]
  have o: "orphaned (next_future h) h2"
    unfolding assms(3,4) using assms(1) assms(2) [unfolded pending_created_def]
    by (rule overwritten_is_orphaned)
  then have later: "orphaned (next_future h) (apply_steps E steps h2)"
    using assms(5) by (rule orphaned_steps)
  then have pending: "futures (apply_steps E steps h2) (next_future h) = Pending"
    by (simp add: orphaned_def)
  have first: "fst (send_screenshot_resume E (next_future h) client_id chat1 (apply_steps E steps h2)) =
      (if bot_fails E (SendMessage chat1 (TimeoutText client_id)) then Inl BotError else Inr False)"
    by (simp add: resume_timeout [OF pending])
  have deleted: "screenshot_pending (fst (snd (send_screenshot_resume E fut client_id chat h'))) client_id = None"
    by (simp add: resume_fields)
  let ?h3 = "fst (snd (send_screenshot_resume E (next_future h) client_id chat1 h2))"
  have "screenshot_pending ?h3 client_id \<noteq> Some (Suc (next_future h))"
    by (simp add: resume_fields)
  from receive_futures [OF this, of data now]
  have second: "futures (fst (snd (endpoint_receive client_id data now ?h3))) (Suc (next_future h)) = Pending"
    by (simp add: resume_fields b1 b2)
  from b1(1) b2(1) b1(2) b2(2) pending first deleted second show ?thesis
    by (simp add: b1(4))
qed


text \<open>
  The theorem of C10 at a Hub with one agent and two requests in flight, when the agent's
  reply arrives.
\<close>

theorem overlapping_screenshot_requests_witness:
  "futures (apply_steps quiet_hub_env [StepReceive 1 (Some screenshot_reply) 11] both_waiting) 0 = Pending \<and>
   fst (send_screenshot_resume quiet_hub_env 0 1 77
          (apply_steps quiet_hub_env [StepReceive 1 (Some screenshot_reply) 11] both_waiting)) = Inr False \<and>
   screenshot_pending both_waiting 1 = Some 1 \<and>
   screenshot_pending (fst (snd (send_screenshot_resume quiet_hub_env 0 1 77 both_waiting))) 1 = None"
proof -
  have c: "active_connections once_connected 1 = Some 1"
    and p: "screenshot_pending once_connected = Map.empty"
    and n: "next_future once_connected = 0"
    by (simp_all add: once_connected_def endpoint_accept_def manager_connect_def
        get_or_create_client_def update_client_status_def fresh_hub_def empty_db_def Let_def)
  have conn: "active_connections once_connected 1 \<noteq> None"
    by (simp add: c)
  have wf: "pending_created once_connected"
    by (simp add: pending_created_def p)
  have steps: "list_all (not_resume_of (next_future once_connected))
      [StepReceive 1 (Some screenshot_reply) 11]"
    by simp
  from overlapping_screenshot_requests [where h = once_connected and client_id = 1
      and E = quiet_hub_env and ?chat1.0 = 77 and ?chat2.0 = 78
      and steps = "[StepReceive 1 (Some screenshot_reply) 11]"
      and fut = 0 and chat = 77 and h' = both_waiting and data = None and now = 0,
      OF conn wf refl refl steps]
  show ?thesis
    by (simp add: n both_waiting_def quiet_hub_env_def)
qed

subsection \<open>Listing the agents\<close>













end
